theory Spec2Isabelle
  imports Main
begin

section \<open>Thunder/__main__.py: exceptions, events and state\<close>

text \<open>
  The module is the entry point of the service: it loads the plugin files, runs the
  start-up steps against the Telegram client, launches three background tasks, starts the
  web server, waits for termination and tears everything down. All of its behaviour is
  control flow around calls to collaborators (the client, the database, the web runner),
  so the embedding makes that control flow explicit:
  \<^item> an exception is a value of \<open>exn\<close>, and a call that may raise returns \<open>exn + 'a\<close>
    (\<open>Inl\<close> the exception);
  \<^item> every call to a collaborator, every sleep, every log line and every report line is an
    event appended to the trace of the state, in program order;
  \<^item> what each collaborator answers is an input: the outcome of each call site is a field
    of the environment.
\<close>

text \<open>
  The exceptions the handlers of the module tell apart. \<open>FloodWait\<close> carries \<open>e.value\<close>,
  the number of seconds to wait. \<open>CancelledError\<close> derives from \<open>BaseException\<close>, not from
  \<open>Exception\<close>, so \<open>except Exception\<close> lets it through. \<open>OtherException\<close> stands for
  every other instance of \<open>Exception\<close>. \<open>KeyboardInterrupt\<close> and \<open>SystemExit\<close>, which
  end the interpreter, are outside the model.
\<close>

datatype exn =
    FloodWait int
  | MessageNotModified
  | OtherException string
  | CancelledError

fun is_Exception :: "exn \<Rightarrow> bool" where
  "is_Exception CancelledError = False"
| "is_Exception _ = True"

datatype task = Request_executor_task | Keepalive_task | Token_cleanup_task

datatype callee =
    StreamBot_start
  | StreamBot_get_me
  | Set_commands
  | Db_get_restart_message
  | StreamBot_edit_message_text int int
  | Db_delete_restart_message int
  | Initialize_clients
  | Glob
  | Exec_module string
  | Web_server
  | App_runner_setup
  | Site_start
  | Idle
  | Cleanup_clients
  | Rate_limiter_shutdown
  | App_runner_cleanup
  | Cleanup_expired_tokens

datatype log_line =
    Invalid_plugin_specification string
  | Failed_to_import_plugin string exn
  | Bot_initialization_failed exn
  | Token_cleanup_error exn

datatype print_line =
    Banner
  | Initializing_bot_services
  | Bot_initialized string
  | Importing_plugins
  | No_plugins_found
  | Plugin_totals nat nat nat
  | Failed_plugins "string list"
  | Bot_running
  | Startup_time

datatype event =
    Call callee
  | Sleep int
  | Log_error log_line
  | Print print_line
  | Create_task task
  | Cancel task
  | Background task

record restart_message =
  chat_id :: int
  message_id :: int

record state =
  trace :: "event list"
  username :: "string option"
  restart_store :: "restart_message option"
  sys_modules :: "string list"

definition emit :: "event \<Rightarrow> state \<Rightarrow> state" where
  "emit ev s = s\<lparr>trace := trace s @ [ev]\<rparr>"

text \<open>An awaited call to a collaborator: the call is issued, then it answers \<open>r\<close>.\<close>

definition call :: "callee \<Rightarrow> exn + 'a \<Rightarrow> state \<Rightarrow> (exn + 'a) \<times> state" where
  "call c r s = (r, emit (Call c) s)"

text \<open>
  \<open>await asyncio.sleep(secs)\<close>: the suspension begins, then it ends with \<open>r\<close>, which is
  \<open>Inr ()\<close> when the time has passed and \<open>Inl CancelledError\<close> when the task is cancelled
  while it sleeps.
\<close>

definition sleep :: "int \<Rightarrow> exn + unit \<Rightarrow> state \<Rightarrow> (exn + unit) \<times> state" where
  "sleep secs r s = (r, emit (Sleep secs) s)"

definition print :: "print_line \<Rightarrow> state \<Rightarrow> (exn + unit) \<times> state" where
  "print l s = (Inr (), emit (Print l) s)"

text \<open>Sequencing of two statements: an exception of the first skips the second.\<close>

definition and_then ::
  "(state \<Rightarrow> (exn + 'a) \<times> state) \<Rightarrow> ('a \<Rightarrow> state \<Rightarrow> (exn + 'b) \<times> state)
    \<Rightarrow> state \<Rightarrow> (exn + 'b) \<times> state" where
  "and_then m f s = (case m s of (Inl e, s1) \<Rightarrow> (Inl e, s1) | (Inr x, s1) \<Rightarrow> f x s1)"

text \<open>
  \<open>try: body except ...\<close>: \<open>handler e\<close> is the clause that catches \<open>e\<close>, or \<open>None\<close> when
  no clause does and \<open>e\<close> goes on to the caller.
\<close>

definition try_except ::
  "(state \<Rightarrow> (exn + 'a) \<times> state) \<Rightarrow> (exn \<Rightarrow> (state \<Rightarrow> (exn + 'a) \<times> state) option)
    \<Rightarrow> state \<Rightarrow> (exn + 'a) \<times> state" where
  "try_except body handler s =
     (case body s of
        (Inr x, s1) \<Rightarrow> (Inr x, s1)
      | (Inl e, s1) \<Rightarrow> (case handler e of None \<Rightarrow> (Inl e, s1) | Some h \<Rightarrow> h s1))"

text \<open>
  \<open>try: body finally: fin\<close>: \<open>fin\<close> runs however \<open>body\<close> ends; an exception of \<open>fin\<close>
  replaces the outcome of \<open>body\<close>.
\<close>

definition try_finally ::
  "(state \<Rightarrow> (exn + 'a) \<times> state) \<Rightarrow> (state \<Rightarrow> (exn + unit) \<times> state)
    \<Rightarrow> state \<Rightarrow> (exn + 'a) \<times> state" where
  "try_finally body fin s =
     (case body s of
        (r, s1) \<Rightarrow> (case fin s1 of (Inl e, s2) \<Rightarrow> (Inl e, s2) | (Inr _, s2) \<Rightarrow> (r, s2)))"

definition pass :: "state \<Rightarrow> (exn + unit) \<times> state" where
  "pass s = (Inr (), s)"

text \<open>The events a run adds to the trace of the state it starts from.\<close>

definition new_events :: "state \<Rightarrow> state \<Rightarrow> event list" where
  "new_events s s1 = drop (length (trace s)) (trace s1)"

section \<open>import_plugins\<close>

text \<open>
  \<open>Path(file_path).stem\<close>: the final component of the path without its last suffix.
  As in pathlib, a dot that starts or ends the name does not begin a suffix.
\<close>

definition path_name :: "string \<Rightarrow> string" where
  "path_name p = rev (takeWhile (\<lambda>c. c \<noteq> CHR ''/'') (rev p))"

definition stem :: "string \<Rightarrow> string" where
  "stem p =
     (let name = path_name p;
          suffix = takeWhile (\<lambda>c. c \<noteq> CHR ''.'') (rev name);
          i = length name - length suffix - 1
      in if CHR ''.'' \<in> set name \<and> 0 < i \<and> i < length name - 1 then take i name else name)"

text \<open>
  What loading one file does: \<open>spec_from_file_location\<close> gives no usable specification,
  or something raises before the module is entered in \<open>sys.modules\<close>, or \<open>exec_module\<close>
  raises, or the module loads.
\<close>

datatype load_outcome =
    Spec_invalid
  | Spec_raises exn
  | Exec_raises exn
  | Loaded

record plugin_file =
  file_path :: string
  outcome :: load_outcome

definition import_path :: "string \<Rightarrow> string" where
  "import_path plugin_name = ''Thunder.bot.plugins.'' @ plugin_name"

text \<open>
  The \<open>for\<close> loop of \<open>import_plugins\<close>, with \<open>success_count\<close> and \<open>failed_plugins\<close> as
  accumulators. The handler is \<open>except Exception\<close>: any other exception leaves the loop.
\<close>

fun load_plugins ::
  "plugin_file list \<Rightarrow> nat \<Rightarrow> string list \<Rightarrow> state \<Rightarrow> (exn + nat \<times> string list) \<times> state" where
  "load_plugins [] success_count failed_plugins s = (Inr (success_count, failed_plugins), s)"
| "load_plugins (f # fs) success_count failed_plugins s =
     (let plugin_name = stem (file_path f) in
      case outcome f of
        Spec_invalid \<Rightarrow>
          load_plugins fs success_count (failed_plugins @ [plugin_name])
            (emit (Log_error (Invalid_plugin_specification plugin_name)) s)
      | Spec_raises e \<Rightarrow>
          if is_Exception e then
            load_plugins fs success_count (failed_plugins @ [plugin_name])
              (emit (Log_error (Failed_to_import_plugin plugin_name e)) s)
          else (Inl e, s)
      | Exec_raises e \<Rightarrow>
          (let s1 = emit (Call (Exec_module plugin_name))
                      (s\<lparr>sys_modules := List.insert (import_path plugin_name) (sys_modules s)\<rparr>)
           in if is_Exception e then
                load_plugins fs success_count (failed_plugins @ [plugin_name])
                  (emit (Log_error (Failed_to_import_plugin plugin_name e)) s1)
              else (Inl e, s1))
      | Loaded \<Rightarrow>
          load_plugins fs (success_count + 1) failed_plugins
            (emit (Call (Exec_module plugin_name))
               (s\<lparr>sys_modules := List.insert (import_path plugin_name) (sys_modules s)\<rparr>)))"

text \<open>\<open>plugins\<close> is what \<open>glob.glob(PLUGIN_PATH)\<close> returns.\<close>

definition import_plugins :: "plugin_file list \<Rightarrow> state \<Rightarrow> (exn + nat) \<times> state" where
  "import_plugins plugins s =
     (let s0 = emit (Call Glob) (emit (Print Importing_plugins) s) in
      if plugins = [] then (Inr 0, emit (Print No_plugins_found) s0)
      else
        case load_plugins plugins 0 [] s0 of
          (Inl e, s1) \<Rightarrow> (Inl e, s1)
        | (Inr (success_count, failed_plugins), s1) \<Rightarrow>
            (let s2 = emit (Print (Plugin_totals (length plugins) success_count
                                    (length failed_plugins))) s1;
                 s3 = (if failed_plugins \<noteq> [] then emit (Print (Failed_plugins failed_plugins)) s2
                       else s2)
             in (Inr success_count, s3)))"

section \<open>start_services\<close>

text \<open>
  The answers of the collaborators, one field for each call site of \<open>start_services\<close>:
  \<open>start_first\<close> is the outcome of \<open>StreamBot.start()\<close> at line 105 and \<open>start_retry\<close> of
  the one at line 108, \<open>get_me_first\<close> and \<open>get_me_retry\<close> carry \<open>bot_info.username\<close>,
  and the three \<open>_sleep\<close> fields are the outcomes of the three \<open>asyncio.sleep(e.value)\<close>.
  \<open>plugins\<close> is the result of the glob.
\<close>

record env =
  start_first :: "exn + unit"
  start_sleep :: "exn + unit"
  start_retry :: "exn + unit"
  get_me_first :: "exn + string"
  get_me_sleep :: "exn + unit"
  get_me_retry :: "exn + string"
  set_commands_r :: "exn + unit"
  edit_message_r :: "exn + unit"
  edit_sleep :: "exn + unit"
  initialize_clients_r :: "exn + unit"
  plugins :: "plugin_file list"
  web_server_r :: "exn + unit"
  app_runner_setup_r :: "exn + unit"
  site_start_r :: "exn + unit"
  idle_r :: "exn + unit"
  cleanup_clients_r :: "exn + unit"
  rate_limiter_shutdown_r :: "exn + unit"
  app_runner_cleanup_r :: "exn + unit"

text \<open>Lines 104 to 108: connect, and on \<open>FloodWait\<close> sleep \<open>e.value\<close> and connect once more.\<close>

definition start_bot :: "env \<Rightarrow> state \<Rightarrow> (exn + unit) \<times> state" where
  "start_bot env =
     try_except (call StreamBot_start (start_first env))
       (\<lambda>e. case e of
              FloodWait v \<Rightarrow>
                Some (and_then (sleep v (start_sleep env))
                       (\<lambda>_. call StreamBot_start (start_retry env)))
            | _ \<Rightarrow> None)"

text \<open>Lines 110 to 114: the same for \<open>get_me\<close>; the value is \<open>bot_info.username\<close>.\<close>

definition get_bot_info :: "env \<Rightarrow> state \<Rightarrow> (exn + string) \<times> state" where
  "get_bot_info env =
     try_except (call StreamBot_get_me (get_me_first env))
       (\<lambda>e. case e of
              FloodWait v \<Rightarrow>
                Some (and_then (sleep v (get_me_sleep env))
                       (\<lambda>_. call StreamBot_get_me (get_me_retry env)))
            | _ \<Rightarrow> None)"

definition set_username :: "string \<Rightarrow> state \<Rightarrow> (exn + unit) \<times> state" where
  "set_username u s = (Inr (), s\<lparr>username := Some u\<rparr>)"

text \<open>
  Modelled from the spec: the persistent storage (\<open>Thunder.utils.database.db\<close> is not among
  the sources) keeps at most one pending restart notice, the field \<open>restart_store\<close> of the
  state; \<open>db.get_restart_message()\<close> returns it, if any, and does not fail.
\<close>

definition db_get_restart_message :: "state \<Rightarrow> (exn + restart_message option) \<times> state" where
  "db_get_restart_message s = call Db_get_restart_message (Inr (restart_store s)) s"

text \<open>
  Modelled from the spec: \<open>db.delete_restart_message(message_id)\<close> removes the stored
  notice when it has that message id, and does not fail.
\<close>

definition db_delete_restart_message :: "int \<Rightarrow> state \<Rightarrow> (exn + unit) \<times> state" where
  "db_delete_restart_message mid s =
     call (Db_delete_restart_message mid) (Inr ())
       (s\<lparr>restart_store :=
            (case restart_store s of
               None \<Rightarrow> None
             | Some m \<Rightarrow> if message_id m = mid then None else Some m)\<rparr>)"

text \<open>Lines 121 to 133.\<close>

definition resolve_restart_message :: "env \<Rightarrow> state \<Rightarrow> (exn + unit) \<times> state" where
  "resolve_restart_message env =
     and_then db_get_restart_message
       (\<lambda>restart_message_data.
          case restart_message_data of
            None \<Rightarrow> pass
          | Some m \<Rightarrow>
              try_except
                (and_then
                   (call (StreamBot_edit_message_text (chat_id m) (message_id m))
                      (edit_message_r env))
                   (\<lambda>_. db_delete_restart_message (message_id m)))
                (\<lambda>e. case e of
                       MessageNotModified \<Rightarrow> Some pass
                     | FloodWait v \<Rightarrow> Some (sleep v (edit_sleep env))
                     | _ \<Rightarrow> None))"

text \<open>The body of the outer \<open>try\<close>, lines 104 to 133.\<close>

definition telegram_bot :: "env \<Rightarrow> state \<Rightarrow> (exn + unit) \<times> state" where
  "telegram_bot env =
     and_then (start_bot env) (\<lambda>_.
     and_then (get_bot_info env) (\<lambda>bot_info_username.
     and_then (set_username bot_info_username) (\<lambda>_.
     and_then (print (Bot_initialized bot_info_username)) (\<lambda>_.
     and_then (call Set_commands (set_commands_r env)) (\<lambda>_.
     resolve_restart_message env)))))"

text \<open>
  The outer \<open>try\<close> with its handler, lines 103 to 137: \<open>Ready\<close> when the body ends
  without an exception, \<open>Failed\<close> when \<open>except Exception\<close> catches one, logs it and
  returns. An exception that is not an \<open>Exception\<close> goes on to the caller.
\<close>

datatype sequencer = Ready | Failed

definition bot_initialization :: "env \<Rightarrow> state \<Rightarrow> (exn + sequencer) \<times> state" where
  "bot_initialization env s =
     (case telegram_bot env s of
        (Inr _, s1) \<Rightarrow> (Inr Ready, s1)
      | (Inl e, s1) \<Rightarrow>
          if is_Exception e then (Inr Failed, emit (Log_error (Bot_initialization_failed e)) s1)
          else (Inl e, s1))"

text \<open>Lines 144 to 146.\<close>

definition create_tasks :: "state \<Rightarrow> (exn + unit) \<times> state" where
  "create_tasks s =
     (Inr (), emit (Create_task Token_cleanup_task)
                (emit (Create_task Keepalive_task)
                   (emit (Create_task Request_executor_task) s)))"

text \<open>Lines 140 to 156: clients, plugins, background tasks, web server.\<close>

definition launch :: "env \<Rightarrow> state \<Rightarrow> (exn + unit) \<times> state" where
  "launch env =
     and_then (call Initialize_clients (initialize_clients_r env)) (\<lambda>_.
     and_then (import_plugins (plugins env)) (\<lambda>_.
     and_then create_tasks (\<lambda>_.
     and_then (call Web_server (web_server_r env)) (\<lambda>_.
     and_then (call App_runner_setup (app_runner_setup_r env)) (\<lambda>_.
     and_then (call Site_start (site_start_r env)) (\<lambda>_.
     and_then (print Bot_running) (\<lambda>_.
     print Startup_time)))))))"

text \<open>Lines 161 and 162: \<open>task.cancel()\<close> only requests the cancellation and does not raise.\<close>

definition cancel_tasks :: "state \<Rightarrow> (exn + unit) \<times> state" where
  "cancel_tasks s =
     (Inr (), emit (Cancel Token_cleanup_task)
                (emit (Cancel Keepalive_task)
                   (emit (Cancel Request_executor_task) s)))"

text \<open>The \<open>finally\<close> block, lines 161 to 166.\<close>

definition teardown :: "env \<Rightarrow> state \<Rightarrow> (exn + unit) \<times> state" where
  "teardown env =
     and_then cancel_tasks (\<lambda>_.
     and_then (call Cleanup_clients (cleanup_clients_r env)) (\<lambda>_.
     and_then (call Rate_limiter_shutdown (rate_limiter_shutdown_r env)) (\<lambda>_.
     call App_runner_cleanup (app_runner_cleanup_r env))))"

text \<open>Lines 158 to 166.\<close>

definition idle_then_teardown :: "env \<Rightarrow> state \<Rightarrow> (exn + unit) \<times> state" where
  "idle_then_teardown env = try_finally (call Idle (idle_r env)) (teardown env)"

text \<open>Lines 98 to 100.\<close>

definition announce :: "state \<Rightarrow> state" where
  "announce s = emit (Print Initializing_bot_services) (emit (Print Banner) s)"

definition start_services :: "env \<Rightarrow> state \<Rightarrow> (exn + unit) \<times> state" where
  "start_services env s =
     (case bot_initialization env (announce s) of
        (Inl e, s1) \<Rightarrow> (Inl e, s1)
      | (Inr Failed, s1) \<Rightarrow> (Inr (), s1)
      | (Inr Ready, s1) \<Rightarrow> and_then (launch env) (\<lambda>_. idle_then_teardown env) s1)"

section \<open>schedule_token_cleanup\<close>

text \<open>
  The loop never ends by itself, so a run is driven by what its iterations meet: the
  outcome of the sleep and, when the sleep ends, the outcome of \<open>cleanup_expired_tokens\<close>.
  After the last iteration of the list the loop is still running.
\<close>

record iteration =
  sleep_r :: "exn + unit"
  cleanup_r :: "exn + unit"

datatype loop_status = Running | Returned | Propagated exn

fun schedule_token_cleanup :: "iteration list \<Rightarrow> state \<Rightarrow> loop_status \<times> state" where
  "schedule_token_cleanup [] s = (Running, s)"
| "schedule_token_cleanup (it # its) s =
     (case and_then (sleep (3 * 3600) (sleep_r it))
             (\<lambda>_. call Cleanup_expired_tokens (cleanup_r it)) s of
        (Inr _, s1) \<Rightarrow> schedule_token_cleanup its s1
      | (Inl e, s1) \<Rightarrow>
          if e = CancelledError then (Returned, s1)
          else if is_Exception e then
            schedule_token_cleanup its (emit (Log_error (Token_cleanup_error e)) s1)
          else (Propagated e, s1))"

section \<open>Vocabulary of the properties\<close>

text \<open>
  \<open>only_emits P m\<close>: whatever state \<open>m\<close> starts from, it only appends events to the
  trace, and every event it appends satisfies \<open>P\<close>.
\<close>

definition only_emits :: "(event \<Rightarrow> bool) \<Rightarrow> (state \<Rightarrow> 'a \<times> state) \<Rightarrow> bool" where
  "only_emits P m = (\<forall>s. \<exists>evs. trace (snd (m s)) = trace s @ evs \<and> list_all P evs)"

text \<open>
  The events of the three phases of \<open>start_services\<close>: the start-up sequence inside the
  outer \<open>try\<close>, the launch of clients, plugins, tasks and web server, and the teardown.
\<close>

fun sequencer_event :: "event \<Rightarrow> bool" where
  "sequencer_event (Call StreamBot_start) = True"
| "sequencer_event (Call StreamBot_get_me) = True"
| "sequencer_event (Call Set_commands) = True"
| "sequencer_event (Call Db_get_restart_message) = True"
| "sequencer_event (Call (StreamBot_edit_message_text c m)) = True"
| "sequencer_event (Call (Db_delete_restart_message m)) = True"
| "sequencer_event (Sleep n) = True"
| "sequencer_event (Print (Bot_initialized u)) = True"
| "sequencer_event (Log_error (Bot_initialization_failed e)) = True"
| "sequencer_event _ = False"

fun teardown_event :: "event \<Rightarrow> bool" where
  "teardown_event (Cancel t) = True"
| "teardown_event (Call Cleanup_clients) = True"
| "teardown_event (Call Rate_limiter_shutdown) = True"
| "teardown_event (Call App_runner_cleanup) = True"
| "teardown_event _ = False"

fun launch_event :: "event \<Rightarrow> bool" where
  "launch_event (Call Initialize_clients) = True"
| "launch_event (Call Glob) = True"
| "launch_event (Call (Exec_module n)) = True"
| "launch_event (Call Web_server) = True"
| "launch_event (Call App_runner_setup) = True"
| "launch_event (Call Site_start) = True"
| "launch_event (Create_task t) = True"
| "launch_event (Log_error (Invalid_plugin_specification n)) = True"
| "launch_event (Log_error (Failed_to_import_plugin n e)) = True"
| "launch_event (Print Importing_plugins) = True"
| "launch_event (Print No_plugins_found) = True"
| "launch_event (Print (Plugin_totals a b c)) = True"
| "launch_event (Print (Failed_plugins ns)) = True"
| "launch_event (Print Bot_running) = True"
| "launch_event (Print Startup_time) = True"
| "launch_event _ = False"

text \<open>
  The events the plugin loop appends, and the calls of the teardown, as functions of the
  answers of the collaborators.
\<close>

fun load_events :: "plugin_file list \<Rightarrow> event list" where
  "load_events [] = []"
| "load_events (f # fs) =
     (case outcome f of
        Spec_invalid \<Rightarrow> Log_error (Invalid_plugin_specification (stem (file_path f))) # load_events fs
      | Spec_raises e \<Rightarrow>
          if is_Exception e then Log_error (Failed_to_import_plugin (stem (file_path f)) e) # load_events fs
          else []
      | Exec_raises e \<Rightarrow>
          Call (Exec_module (stem (file_path f))) #
            (if is_Exception e then Log_error (Failed_to_import_plugin (stem (file_path f)) e) # load_events fs
             else [])
      | Loaded \<Rightarrow> Call (Exec_module (stem (file_path f))) # load_events fs)"

definition teardown_calls :: "env \<Rightarrow> event list" where
  "teardown_calls env =
     [Cancel Request_executor_task, Cancel Keepalive_task, Cancel Token_cleanup_task,
      Call Cleanup_clients] @
     (if cleanup_clients_r env = Inr () then
        Call Rate_limiter_shutdown #
        (if rate_limiter_shutdown_r env = Inr () then [Call App_runner_cleanup] else [])
      else [])"

text \<open>
  An iteration of one of the three background tasks, as it appears among the events of the
  main coroutine when the event loop interleaves them.
\<close>

fun is_Background :: "event \<Rightarrow> bool" where
  "is_Background (Background t) = True"
| "is_Background _ = False"

text \<open>
  \<open>connects\<close>: \<open>StreamBot.start()\<close> succeeds, at once or at the retry after a
  \<open>FloodWait\<close> whose sleep runs to its end. \<open>identifies\<close>: the same for \<open>get_me\<close>.
\<close>

definition connects :: "env \<Rightarrow> bool" where
  "connects env =
     (case start_first env of
        Inr _ \<Rightarrow> True
      | Inl (FloodWait v) \<Rightarrow> start_sleep env = Inr () \<and> start_retry env = Inr ()
      | Inl _ \<Rightarrow> False)"

definition identifies :: "env \<Rightarrow> bool" where
  "identifies env =
     (case get_me_first env of
        Inr _ \<Rightarrow> True
      | Inl (FloodWait v) \<Rightarrow>
          get_me_sleep env = Inr () \<and> (case get_me_retry env of Inr _ \<Rightarrow> True | Inl _ \<Rightarrow> False)
      | Inl _ \<Rightarrow> False)"

fun connect_event :: "event \<Rightarrow> bool" where
  "connect_event (Call StreamBot_start) = True"
| "connect_event (Call StreamBot_get_me) = True"
| "connect_event (Call Set_commands) = True"
| "connect_event (Sleep n) = True"
| "connect_event (Print (Bot_initialized u)) = True"
| "connect_event _ = False"

text \<open>
  The calls that concern the restart notice: reading it, editing the message, deleting it.
\<close>

fun notice_call :: "event \<Rightarrow> bool" where
  "notice_call (Call Db_get_restart_message) = True"
| "notice_call (Call (StreamBot_edit_message_text c m)) = True"
| "notice_call (Call (Db_delete_restart_message m)) = True"
| "notice_call _ = False"

text \<open>
  What the restart-notice step appends after the edit call, and how it ends, for each
  outcome of the edit.
\<close>

definition resolve_tail :: "env \<Rightarrow> restart_message \<Rightarrow> event list" where
  "resolve_tail env m =
     (case edit_message_r env of
        Inr _ \<Rightarrow> [Call (Db_delete_restart_message (message_id m))]
      | Inl (FloodWait v) \<Rightarrow> [Sleep v]
      | Inl _ \<Rightarrow> [])"

definition resolve_result :: "env \<Rightarrow> exn + unit" where
  "resolve_result env =
     (case edit_message_r env of
        Inr _ \<Rightarrow> Inr ()
      | Inl MessageNotModified \<Rightarrow> Inr ()
      | Inl (FloodWait v) \<Rightarrow> edit_sleep env
      | Inl e \<Rightarrow> Inl e)"

text \<open>
  A plugin file fails when it does not load. \<open>raises_only_Exception\<close>: what loading it
  raises, if anything, is an instance of \<open>Exception\<close>, the class the handler of the loop names.
\<close>

definition fails :: "plugin_file \<Rightarrow> bool" where
  "fails f = (outcome f \<noteq> Loaded)"

definition raises_only_Exception :: "plugin_file \<Rightarrow> bool" where
  "raises_only_Exception f =
     (case outcome f of Spec_raises e \<Rightarrow> is_Exception e | Exec_raises e \<Rightarrow> is_Exception e | _ \<Rightarrow> True)"

definition plugin_name_of :: "plugin_file \<Rightarrow> string" where
  "plugin_name_of f = stem (file_path f)"




text \<open>
  The exception an iteration of the clean-up loop meets, if any; the iteration is cancelled
  when that exception is \<open>CancelledError\<close>.
\<close>

definition iteration_raises :: "iteration \<Rightarrow> exn option" where
  "iteration_raises it =
     (case sleep_r it of
        Inl e \<Rightarrow> Some e
      | Inr _ \<Rightarrow> (case cleanup_r it of Inl e \<Rightarrow> Some e | Inr _ \<Rightarrow> None))"

definition cancelled :: "iteration \<Rightarrow> bool" where
  "cancelled it = (iteration_raises it = Some CancelledError)"

fun is_Sleep :: "event \<Rightarrow> bool" where
  "is_Sleep (Sleep n) = True"
| "is_Sleep _ = False"

fun is_Log_error :: "event \<Rightarrow> bool" where
  "is_Log_error (Log_error l) = True"
| "is_Log_error _ = False"

fun loop_events :: "iteration list \<Rightarrow> event list" where
  "loop_events [] = []"
| "loop_events (it # its) =
     Sleep 10800 #
     (case sleep_r it of
        Inl e \<Rightarrow> if e = CancelledError then [] else Log_error (Token_cleanup_error e) # loop_events its
      | Inr _ \<Rightarrow>
          Call Cleanup_expired_tokens #
          (case cleanup_r it of
             Inl e \<Rightarrow> if e = CancelledError then [] else Log_error (Token_cleanup_error e) # loop_events its
           | Inr _ \<Rightarrow> loop_events its))"

text \<open>
  \<open>keeps_store m\<close>: \<open>m\<close> leaves the stored restart notice as it is.
\<close>

definition keeps_store :: "(state \<Rightarrow> 'a \<times> state) \<Rightarrow> bool" where
  "keeps_store m = (\<forall>s. restart_store (snd (m s)) = restart_store s)"

fun is_delete :: "event \<Rightarrow> bool" where
  "is_delete (Call (Db_delete_restart_message i)) = True"
| "is_delete _ = False"

text \<open>
  Every step between the start-up sequence and the idle wait returns normally.
\<close>

definition launch_succeeds :: "env \<Rightarrow> bool" where
  "launch_succeeds env =
     (initialize_clients_r env = Inr () \<and> list_all raises_only_Exception (plugins env)
      \<and> web_server_r env = Inr () \<and> app_runner_setup_r env = Inr ()
      \<and> site_start_r env = Inr ())"

text \<open>
  Concrete states and environments: \<open>s0\<close> has no pending restart notice, \<open>s_notice\<close> has
  one; in \<open>env_ok\<close> every collaborator answers without an exception, and the other
  environments change one or two answers of it.
\<close>

definition s0 :: state where
  "s0 = \<lparr>trace = [], username = None, restart_store = None, sys_modules = []\<rparr>"

definition notice0 :: restart_message where
  "notice0 = \<lparr>chat_id = 1001, message_id = 42\<rparr>"

definition s_notice :: state where
  "s_notice = \<lparr>trace = [], username = None, restart_store = Some notice0, sys_modules = []\<rparr>"


definition env_ok :: env where
  "env_ok =
     \<lparr>start_first = Inr (), start_sleep = Inr (), start_retry = Inr (),
      get_me_first = Inr ''ThunderBot'', get_me_sleep = Inr (), get_me_retry = Inr ''ThunderBot'',
      set_commands_r = Inr (), edit_message_r = Inr (), edit_sleep = Inr (),
      initialize_clients_r = Inr (), plugins = [],
      web_server_r = Inr (), app_runner_setup_r = Inr (), site_start_r = Inr (),
      idle_r = Inr (), cleanup_clients_r = Inr (), rate_limiter_shutdown_r = Inr (),
      app_runner_cleanup_r = Inr ()\<rparr>"

definition env_registration_fails :: env where
  "env_registration_fails =
     env_ok\<lparr>start_first := Inl (FloodWait 5),
            set_commands_r := Inl (OtherException ''registration failed'')\<rparr>"


definition env_connect_retry :: env where
  "env_connect_retry =
     env_ok\<lparr>start_first := Inl (FloodWait 5), get_me_first := Inl (FloodWait 7)\<rparr>"

definition env_connect_flood_twice :: env where
  "env_connect_flood_twice =
     env_ok\<lparr>start_first := Inl (FloodWait 5), start_retry := Inl (FloodWait 9)\<rparr>"

definition env_get_me_flood_twice :: env where
  "env_get_me_flood_twice =
     env_ok\<lparr>get_me_first := Inl (FloodWait 7), get_me_retry := Inl (FloodWait 11)\<rparr>"

definition env_connect_fails :: env where
  "env_connect_fails = env_ok\<lparr>start_first := Inl (OtherException ''unauthorized'')\<rparr>"

definition env_edit_unchanged :: env where
  "env_edit_unchanged = env_ok\<lparr>edit_message_r := Inl MessageNotModified\<rparr>"

definition env_edit_flood :: env where
  "env_edit_flood = env_ok\<lparr>edit_message_r := Inl (FloodWait 3)\<rparr>"

definition iterations0 :: "iteration list" where
  "iterations0 =
     [\<lparr>sleep_r = Inr (), cleanup_r = Inl (OtherException ''db down'')\<rparr>,
      \<lparr>sleep_r = Inr (), cleanup_r = Inl (OtherException ''db down'')\<rparr>,
      \<lparr>sleep_r = Inr (), cleanup_r = Inl (FloodWait 4)\<rparr>,
      \<lparr>sleep_r = Inr (), cleanup_r = Inr ()\<rparr>,
      \<lparr>sleep_r = Inl CancelledError, cleanup_r = Inr ()\<rparr>,
      \<lparr>sleep_r = Inr (), cleanup_r = Inr ()\<rparr>]"

section \<open>Auxiliary lemmas\<close>

text \<open>
  The trace only grows, and each phase emits only its own events.
\<close>

lemma only_emitsI:
  "(\<And>s. \<exists>evs. trace (snd (m s)) = trace s @ evs \<and> list_all P evs) \<Longrightarrow> only_emits P m"
  by (simp add: only_emits_def)

lemma only_emitsD:
  "only_emits P m \<Longrightarrow> \<exists>evs. trace (snd (m s)) = trace s @ evs \<and> list_all P evs"
  by (simp add: only_emits_def)

lemma only_emits_call: "P (Call c) \<Longrightarrow> only_emits P (call c r)"
  by (simp add: only_emits_def call_def emit_def)

lemma only_emits_sleep: "P (Sleep n) \<Longrightarrow> only_emits P (sleep n r)"
  by (simp add: only_emits_def sleep_def emit_def)

lemma only_emits_print: "P (Print l) \<Longrightarrow> only_emits P (print l)"
  by (simp add: only_emits_def print_def emit_def)

lemma only_emits_pass: "only_emits P pass"
  by (simp add: only_emits_def pass_def)

lemma only_emits_set_username: "only_emits P (set_username u)"
  by (simp add: only_emits_def set_username_def)

lemma only_emits_db_get: "P (Call Db_get_restart_message) \<Longrightarrow> only_emits P db_get_restart_message"
  by (simp add: only_emits_def db_get_restart_message_def call_def emit_def)

lemma only_emits_db_delete:
  "P (Call (Db_delete_restart_message m)) \<Longrightarrow> only_emits P (db_delete_restart_message m)"
  by (simp add: only_emits_def db_delete_restart_message_def call_def emit_def)

lemma only_emits_and_then:
  assumes m: "only_emits P m" and f: "\<And>x. only_emits P (f x)"
  shows "only_emits P (and_then m f)"
proof (rule only_emitsI)
  fix s
  obtain evs1 where e1: "trace (snd (m s)) = trace s @ evs1" "list_all P evs1"
    using only_emitsD [OF m] by blast
  show "\<exists>evs. trace (snd (and_then m f s)) = trace s @ evs \<and> list_all P evs"
  proof (cases "m s")
    case (Pair r s1)
    show ?thesis
    proof (cases r)
      case (Inl e)
      with Pair e1 show ?thesis by (auto simp: and_then_def)
    next
      case (Inr x)
      obtain evs2 where e2: "trace (snd (f x s1)) = trace s1 @ evs2" "list_all P evs2"
        using only_emitsD [OF f] by blast
      from Pair Inr e1 e2 have "trace (snd (and_then m f s)) = trace s @ (evs1 @ evs2)"
        by (simp add: and_then_def)
      moreover have "list_all P (evs1 @ evs2)" using e1 e2 by simp
      ultimately show ?thesis by blast
    qed
  qed
qed

lemma only_emits_try_except:
  assumes m: "only_emits P body" and h: "\<And>e h. handler e = Some h \<Longrightarrow> only_emits P h"
  shows "only_emits P (try_except body handler)"
proof (rule only_emitsI)
  fix s
  obtain evs1 where e1: "trace (snd (body s)) = trace s @ evs1" "list_all P evs1"
    using only_emitsD [OF m] by blast
  show "\<exists>evs. trace (snd (try_except body handler s)) = trace s @ evs \<and> list_all P evs"
  proof (cases "body s")
    case (Pair r s1)
    show ?thesis
    proof (cases r)
      case (Inr x)
      with Pair e1 show ?thesis by (auto simp: try_except_def)
    next
      case (Inl e)
      show ?thesis
      proof (cases "handler e")
        case None
        with Pair Inl e1 show ?thesis by (auto simp: try_except_def)
      next
        case (Some k)
        obtain evs2 where e2: "trace (snd (k s1)) = trace s1 @ evs2" "list_all P evs2"
          using only_emitsD [OF h [OF Some]] by blast
        from Pair Inl Some e1 e2 have "trace (snd (try_except body handler s)) = trace s @ (evs1 @ evs2)"
          by (simp add: try_except_def)
        moreover have "list_all P (evs1 @ evs2)" using e1 e2 by simp
        ultimately show ?thesis by blast
      qed
    qed
  qed
qed

lemma only_emits_start_bot: "only_emits sequencer_event (start_bot env)"
  unfolding start_bot_def
  by (rule only_emits_try_except)
     (auto intro!: only_emits_call only_emits_and_then only_emits_sleep split: exn.splits)

lemma only_emits_get_bot_info: "only_emits sequencer_event (get_bot_info env)"
  unfolding get_bot_info_def
  by (rule only_emits_try_except)
     (auto intro!: only_emits_call only_emits_and_then only_emits_sleep split: exn.splits)

lemma only_emits_resolve: "only_emits sequencer_event (resolve_restart_message env)"
  unfolding resolve_restart_message_def
  by (auto intro!: only_emits_and_then only_emits_db_get only_emits_try_except only_emits_call
        only_emits_db_delete only_emits_pass only_emits_sleep split: option.splits exn.splits)

lemma only_emits_telegram_bot: "only_emits sequencer_event (telegram_bot env)"
  unfolding telegram_bot_def
  by (intro only_emits_and_then only_emits_start_bot only_emits_get_bot_info only_emits_resolve
        only_emits_set_username only_emits_print only_emits_call) simp_all

lemma only_emits_bot_initialization: "only_emits sequencer_event (bot_initialization env)"
proof (rule only_emitsI)
  fix s
  obtain evs where e: "trace (snd (telegram_bot env s)) = trace s @ evs" "list_all sequencer_event evs"
    using only_emitsD [OF only_emits_telegram_bot] by blast
  show "\<exists>evs. trace (snd (bot_initialization env s)) = trace s @ evs \<and> list_all sequencer_event evs"
  proof (cases "telegram_bot env s")
    case (Pair r s1)
    with e show ?thesis
      by (cases r) (auto simp: bot_initialization_def emit_def)
  qed
qed

text \<open>
  The plugin loop and the launch phase.
\<close>

lemma load_plugins_trace:
  "trace (snd (load_plugins fs sc fp s)) = trace s @ load_events fs"
  by (induction fs arbitrary: sc fp s)
     (auto simp: Let_def emit_def split: load_outcome.splits)

lemma load_events_launch: "list_all launch_event (load_events fs)"
  by (induction fs) (auto split: load_outcome.splits)

lemma only_emits_import_plugins: "only_emits launch_event (import_plugins fs)"
proof (rule only_emitsI)
  fix s
  let ?s0 = "emit (Call Glob) (emit (Print Importing_plugins) s)"
  show "\<exists>evs. trace (snd (import_plugins fs s)) = trace s @ evs \<and> list_all launch_event evs"
  proof (cases "fs = []")
    case True
    then show ?thesis by (simp add: import_plugins_def emit_def)
  next
    case False
    have t: "trace (snd (load_plugins fs 0 [] ?s0))
        = trace s @ [Print Importing_plugins, Call Glob] @ load_events fs"
      by (simp add: load_plugins_trace emit_def)
    show ?thesis
    proof (cases "load_plugins fs 0 [] ?s0")
      case (Pair r s1)
      with t False load_events_launch [of fs] show ?thesis
        by (cases r) (auto simp: import_plugins_def Let_def emit_def)
    qed
  qed
qed

lemma only_emits_create_tasks: "only_emits launch_event create_tasks"
  by (simp add: only_emits_def create_tasks_def emit_def)

lemma launch_events:
  "\<exists>evs. trace (snd (launch env s)) = trace s @ Call Initialize_clients # evs \<and> list_all launch_event evs"
proof -
  let ?rest = "\<lambda>_::unit.
     and_then (import_plugins (plugins env)) (\<lambda>_.
     and_then create_tasks (\<lambda>_.
     and_then (call Web_server (web_server_r env)) (\<lambda>_.
     and_then (call App_runner_setup (app_runner_setup_r env)) (\<lambda>_.
     and_then (call Site_start (site_start_r env)) (\<lambda>_.
     and_then (print Bot_running) (\<lambda>_.
     print Startup_time))))))"
  have rest: "only_emits launch_event (?rest x)" for x
    by (intro only_emits_and_then only_emits_import_plugins only_emits_create_tasks
          only_emits_call only_emits_print) simp_all
  obtain evs where e: "trace (snd (?rest () (emit (Call Initialize_clients) s)))
      = trace (emit (Call Initialize_clients) s) @ evs" "list_all launch_event evs"
    using only_emitsD [OF rest] by blast
  show ?thesis
  proof (cases "initialize_clients_r env")
    case (Inl e)
    then show ?thesis by (simp add: launch_def and_then_def call_def emit_def)
  next
    case (Inr x)
    with e show ?thesis by (simp add: launch_def and_then_def call_def emit_def)
  qed
qed

text \<open>
  The teardown: what it calls depends only on which release step raises.
\<close>

lemma teardown_trace: "trace (snd (teardown env s)) = trace s @ teardown_calls env"
  by (cases "cleanup_clients_r env"; cases "rate_limiter_shutdown_r env")
     (simp_all add: teardown_def teardown_calls_def cancel_tasks_def and_then_def call_def emit_def)

lemma idle_then_teardown_trace:
  "trace (snd (idle_then_teardown env s)) = trace s @ Call Idle # teardown_calls env"
proof -
  have "trace (snd (teardown env (emit (Call Idle) s))) = trace s @ Call Idle # teardown_calls env"
    by (simp add: teardown_trace emit_def)
  then show ?thesis
    by (cases "teardown env (emit (Call Idle) s)")
       (auto simp: idle_then_teardown_def try_finally_def call_def split: sum.splits)
qed

lemma sequencer_event_other:
  "sequencer_event ev \<Longrightarrow> \<not> teardown_event ev \<and> \<not> launch_event ev \<and> ev \<noteq> Call Idle"
  by (cases ev rule: sequencer_event.cases) auto

lemma launch_event_other:
  "launch_event ev \<Longrightarrow> \<not> teardown_event ev \<and> \<not> sequencer_event ev \<and> ev \<noteq> Call Idle"
  by (cases ev rule: launch_event.cases) auto

lemma bot_initialization_events:
  "\<exists>seq. trace (snd (bot_initialization env (announce s)))
            = trace s @ Print Banner # Print Initializing_bot_services # seq
         \<and> list_all sequencer_event seq"
  using only_emitsD [OF only_emits_bot_initialization, of env "announce s"]
  by (auto simp: announce_def emit_def)

text \<open>
  The shape of a whole run of \<open>start_services\<close>.
\<close>

lemma start_services_not_Ready:
  "fst (bot_initialization env (announce s)) \<noteq> Inr Ready \<Longrightarrow>
   snd (start_services env s) = snd (bot_initialization env (announce s))
   \<and> fst (start_services env s)
       = (case fst (bot_initialization env (announce s)) of Inl e \<Rightarrow> Inl e | Inr _ \<Rightarrow> Inr ())"
  by (cases "bot_initialization env (announce s)")
     (auto simp: start_services_def split: sum.splits sequencer.splits)

lemma start_services_Ready:
  assumes "fst (bot_initialization env (announce s)) = Inr Ready"
  shows "\<exists>la. list_all launch_event la \<and>
     (trace (snd (start_services env s))
        = trace (snd (bot_initialization env (announce s))) @ Call Initialize_clients # la
      \<or> trace (snd (start_services env s))
        = trace (snd (bot_initialization env (announce s))) @ Call Initialize_clients # la
            @ Call Idle # teardown_calls env)"
proof -
  obtain s1 where b: "bot_initialization env (announce s) = (Inr Ready, s1)"
    using assms by (cases "bot_initialization env (announce s)") auto
  obtain la where la: "trace (snd (launch env s1)) = trace s1 @ Call Initialize_clients # la"
      "list_all launch_event la"
    using launch_events by blast
  show ?thesis
  proof (cases "launch env s1")
    case (Pair r s2)
    show ?thesis
    proof (cases r)
      case (Inl e)
      with Pair b la show ?thesis
        by (auto simp: start_services_def and_then_def)
    next
      case (Inr x)
      with Pair b la idle_then_teardown_trace [of env s2] show ?thesis
        by (auto simp: start_services_def and_then_def)
    qed
  qed
qed

lemma filter_teardown_calls: "filter teardown_event (teardown_calls env) = teardown_calls env"
  by (simp add: teardown_calls_def)

lemma filter_none: "list_all (\<lambda>ev. \<not> P ev) evs \<Longrightarrow> filter P evs = []"
  by (induction evs) auto

lemma shutdown_projection:
  assumes idle: "Call Idle \<in> set (new_events s (snd (start_services env s)))"
  shows "filter teardown_event (new_events s (snd (start_services env s))) = teardown_calls env"
proof -
  obtain seq where seq: "trace (snd (bot_initialization env (announce s)))
            = trace s @ Print Banner # Print Initializing_bot_services # seq"
      "list_all sequencer_event seq"
    using bot_initialization_events by blast
  have seq_no: "Call Idle \<notin> set seq" "filter teardown_event seq = []"
    using seq(2) sequencer_event_other by (auto simp: list_all_iff filter_empty_conv)
  show ?thesis
  proof (cases "fst (bot_initialization env (announce s)) = Inr Ready")
    case False
    with start_services_not_Ready [OF False] seq seq_no idle show ?thesis
      by (simp add: new_events_def)
  next
    case True
    obtain la where la: "list_all launch_event la"
      "trace (snd (start_services env s))
        = trace (snd (bot_initialization env (announce s))) @ Call Initialize_clients # la
      \<or> trace (snd (start_services env s))
        = trace (snd (bot_initialization env (announce s))) @ Call Initialize_clients # la
            @ Call Idle # teardown_calls env"
      using start_services_Ready [OF True] by blast
    have la_no: "Call Idle \<notin> set la" "filter teardown_event la = []"
      using la(1) launch_event_other by (auto simp: list_all_iff filter_empty_conv)
    from la(2) show ?thesis
    proof
      assume "trace (snd (start_services env s))
        = trace (snd (bot_initialization env (announce s))) @ Call Initialize_clients # la"
      with seq seq_no la_no idle show ?thesis by (simp add: new_events_def)
    next
      assume "trace (snd (start_services env s))
        = trace (snd (bot_initialization env (announce s))) @ Call Initialize_clients # la
            @ Call Idle # teardown_calls env"
      with seq seq_no la_no show ?thesis by (simp add: new_events_def filter_teardown_calls)
    qed
  qed
qed

text \<open>
  The start-up sequence up to the restart-notice step, and that step itself.
\<close>

lemma start_bot_connects:
  "connects env \<Longrightarrow>
   \<exists>pre. list_all connect_event pre \<and> start_bot env s = (Inr (), s\<lparr>trace := trace s @ pre\<rparr>)"
proof (cases "start_first env")
  case (Inr x)
  then have "start_bot env s = (Inr (), s\<lparr>trace := trace s @ [Call StreamBot_start]\<rparr>)"
    by (simp add: start_bot_def try_except_def call_def emit_def)
  moreover have "list_all connect_event [Call StreamBot_start]" by simp
  ultimately show ?thesis by blast
next
  case (Inl e)
  assume c: "connects env"
  with Inl obtain v where v: "e = FloodWait v" "start_sleep env = Inr ()" "start_retry env = Inr ()"
    by (cases e) (auto simp: connects_def)
  with Inl have "start_bot env s
      = (Inr (), s\<lparr>trace := trace s @ [Call StreamBot_start, Sleep v, Call StreamBot_start]\<rparr>)"
    by (simp add: start_bot_def try_except_def call_def emit_def and_then_def sleep_def)
  moreover have "list_all connect_event [Call StreamBot_start, Sleep v, Call StreamBot_start]" by simp
  ultimately show ?thesis by blast
qed

lemma get_bot_info_identifies:
  "identifies env \<Longrightarrow>
   \<exists>pre u. list_all connect_event pre \<and> get_bot_info env s = (Inr u, s\<lparr>trace := trace s @ pre\<rparr>)"
proof (cases "get_me_first env")
  case (Inr u)
  then have "get_bot_info env s = (Inr u, s\<lparr>trace := trace s @ [Call StreamBot_get_me]\<rparr>)"
    by (simp add: get_bot_info_def try_except_def call_def emit_def)
  moreover have "list_all connect_event [Call StreamBot_get_me]" by simp
  ultimately show ?thesis by blast
next
  case (Inl e)
  assume c: "identifies env"
  with Inl obtain v u where v: "e = FloodWait v" "get_me_sleep env = Inr ()" "get_me_retry env = Inr u"
    by (cases e; cases "get_me_retry env") (auto simp: identifies_def)
  with Inl have "get_bot_info env s
      = (Inr u, s\<lparr>trace := trace s @ [Call StreamBot_get_me, Sleep v, Call StreamBot_get_me]\<rparr>)"
    by (simp add: get_bot_info_def try_except_def call_def emit_def and_then_def sleep_def)
  moreover have "list_all connect_event [Call StreamBot_get_me, Sleep v, Call StreamBot_get_me]" by simp
  ultimately show ?thesis by blast
qed

lemma reaches_set_commands:
  assumes "connects env" "identifies env"
  shows "\<exists>pre s1. list_all connect_event pre \<and> trace s1 = trace s @ pre
     \<and> restart_store s1 = restart_store s
     \<and> telegram_bot env s
         = and_then (call Set_commands (set_commands_r env)) (\<lambda>_. resolve_restart_message env) s1"
proof -
  obtain p1 where p1: "list_all connect_event p1" "start_bot env s = (Inr (), s\<lparr>trace := trace s @ p1\<rparr>)"
    using start_bot_connects [OF assms(1)] by blast
  let ?s1 = "s\<lparr>trace := trace s @ p1\<rparr>"
  obtain p2 u where p2: "list_all connect_event p2"
      "get_bot_info env ?s1 = (Inr u, ?s1\<lparr>trace := trace ?s1 @ p2\<rparr>)"
    using get_bot_info_identifies [OF assms(2)] by blast
  let ?s2 = "s\<lparr>username := Some u, trace := trace s @ p1 @ p2 @ [Print (Bot_initialized u)]\<rparr>"
  have "telegram_bot env s
      = and_then (call Set_commands (set_commands_r env)) (\<lambda>_. resolve_restart_message env) ?s2"
    using p1 p2 by (simp add: telegram_bot_def and_then_def set_username_def print_def emit_def)
  moreover have "list_all connect_event (p1 @ p2 @ [Print (Bot_initialized u)])"
    using p1 p2 by simp
  moreover have "trace ?s2 = trace s @ (p1 @ p2 @ [Print (Bot_initialized u)])" by simp
  moreover have "restart_store ?s2 = restart_store s" by simp
  ultimately show ?thesis by blast
qed

lemma reaches_resolution:
  assumes "connects env" "identifies env" "set_commands_r env = Inr ()"
  shows "\<exists>pre s1. list_all connect_event pre \<and> trace s1 = trace s @ pre
     \<and> restart_store s1 = restart_store s
     \<and> telegram_bot env s = resolve_restart_message env s1"
proof -
  obtain pre s1 where a: "list_all connect_event pre" "trace s1 = trace s @ pre"
      "restart_store s1 = restart_store s"
      "telegram_bot env s
         = and_then (call Set_commands (set_commands_r env)) (\<lambda>_. resolve_restart_message env) s1"
    using reaches_set_commands [OF assms(1,2)] by blast
  let ?s2 = "emit (Call Set_commands) s1"
  have "telegram_bot env s = resolve_restart_message env ?s2"
    using a(4) assms(3) by (simp add: and_then_def call_def)
  moreover have "list_all connect_event (pre @ [Call Set_commands])" using a(1) by simp
  moreover have "trace ?s2 = trace s @ (pre @ [Call Set_commands])" using a(2) by (simp add: emit_def)
  moreover have "restart_store ?s2 = restart_store s" using a(3) by (simp add: emit_def)
  ultimately show ?thesis by blast
qed

lemma resolve_None:
  "restart_store s = None \<Longrightarrow>
   resolve_restart_message env s = (Inr (), emit (Call Db_get_restart_message) s)"
  by (simp add: resolve_restart_message_def and_then_def db_get_restart_message_def call_def pass_def)

lemma resolve_Some:
  assumes "restart_store s = Some m"
  shows "fst (resolve_restart_message env s) = resolve_result env"
    and "trace (snd (resolve_restart_message env s))
      = trace s @ Call Db_get_restart_message
          # Call (StreamBot_edit_message_text (chat_id m) (message_id m)) # resolve_tail env m"
    and "restart_store (snd (resolve_restart_message env s))
      = (if edit_message_r env = Inr () then None else Some m)"
proof -
  show "fst (resolve_restart_message env s) = resolve_result env"
    using assms
    by (cases "edit_message_r env")
       (auto simp: resolve_restart_message_def and_then_def db_get_restart_message_def call_def
          pass_def try_except_def db_delete_restart_message_def sleep_def emit_def
          resolve_result_def split: exn.splits)
  show "trace (snd (resolve_restart_message env s))
      = trace s @ Call Db_get_restart_message
          # Call (StreamBot_edit_message_text (chat_id m) (message_id m)) # resolve_tail env m"
    using assms
    by (cases "edit_message_r env")
       (auto simp: resolve_restart_message_def and_then_def db_get_restart_message_def call_def
          pass_def try_except_def db_delete_restart_message_def sleep_def emit_def
          resolve_tail_def split: exn.splits)
  show "restart_store (snd (resolve_restart_message env s))
      = (if edit_message_r env = Inr () then None else Some m)"
    using assms
    by (cases "edit_message_r env")
       (auto simp: resolve_restart_message_def and_then_def db_get_restart_message_def call_def
          pass_def try_except_def db_delete_restart_message_def sleep_def emit_def
          split: exn.splits)
qed

text \<open>
  The result of the plugin loop.
\<close>

lemma load_plugins_result:
  "list_all raises_only_Exception fs \<Longrightarrow>
   fst (load_plugins fs sc fp s) =
     Inr (sc + length (filter (\<lambda>f. \<not> fails f) fs), fp @ map plugin_name_of (filter fails fs))"
  by (induction fs arbitrary: sc fp s)
     (auto simp: fails_def raises_only_Exception_def plugin_name_of_def Let_def split: load_outcome.splits)





text \<open>
  The clean-up loop.
\<close>

lemma is_Exception_iff: "is_Exception e \<longleftrightarrow> e \<noteq> CancelledError"
  by (cases e) simp_all

lemma loop_trace: "trace (snd (schedule_token_cleanup its s)) = trace s @ loop_events its"
  by (induction its arbitrary: s)
     (auto simp: and_then_def sleep_def call_def emit_def is_Exception_iff split: sum.splits)

lemma loop_status:
  "fst (schedule_token_cleanup its s) = (if list_ex cancelled its then Returned else Running)"
  by (induction its arbitrary: s)
     (auto simp: and_then_def sleep_def call_def emit_def is_Exception_iff cancelled_def iteration_raises_def
        split: sum.splits)

lemma loop_events_sleeps:
  "filter is_Sleep (loop_events its)
     = replicate (min (length its) (Suc (length (takeWhile (\<lambda>it. \<not> cancelled it) its)))) (Sleep (3 * 3600))"
  by (induction its)
     (auto simp: cancelled_def iteration_raises_def split: sum.splits)

lemma loop_events_log_count:
  "filter is_Log_error (loop_events its)
     = map (\<lambda>e. Log_error (Token_cleanup_error e)) (List.map_filter iteration_raises (takeWhile (\<lambda>it. \<not> cancelled it) its))"
  by (induction its)
     (auto simp: map_filter_simps cancelled_def iteration_raises_def split: sum.splits)

text \<open>
  Only the delete call of the restart-notice step changes the stored notice.
\<close>

lemma keeps_store_call: "keeps_store (call c r)"
  by (simp add: keeps_store_def call_def emit_def)

lemma keeps_store_print: "keeps_store (print l)"
  by (simp add: keeps_store_def print_def emit_def)

lemma keeps_store_create_tasks: "keeps_store create_tasks"
  by (simp add: keeps_store_def create_tasks_def emit_def)

lemma keeps_store_cancel_tasks: "keeps_store cancel_tasks"
  by (simp add: keeps_store_def cancel_tasks_def emit_def)

lemma keeps_store_and_then:
  "keeps_store m \<Longrightarrow> (\<And>x. keeps_store (f x)) \<Longrightarrow> keeps_store (and_then m f)"
  unfolding keeps_store_def and_then_def
  by (auto split: prod.splits sum.splits) (metis snd_conv)+

lemma keeps_store_try_finally:
  "keeps_store m \<Longrightarrow> keeps_store f \<Longrightarrow> keeps_store (try_finally m f)"
  unfolding keeps_store_def try_finally_def
  by (auto split: prod.splits sum.splits) (metis snd_conv)+

lemma load_plugins_store: "restart_store (snd (load_plugins fs sc fp s)) = restart_store s"
  by (induction fs arbitrary: sc fp s)
     (auto simp: Let_def emit_def split: load_outcome.splits)

lemma keeps_store_import_plugins: "keeps_store (import_plugins fs)"
  unfolding keeps_store_def
proof
  fix s
  let ?s0 = "emit (Call Glob) (emit (Print Importing_plugins) s)"
  have "restart_store (snd (load_plugins fs 0 [] ?s0)) = restart_store s"
    by (simp add: load_plugins_store emit_def)
  then show "restart_store (snd (import_plugins fs s)) = restart_store s"
    by (cases "load_plugins fs 0 [] ?s0")
       (auto simp: import_plugins_def Let_def emit_def split: sum.splits)
qed

lemma keeps_store_launch: "keeps_store (launch env)"
  unfolding launch_def
  by (intro keeps_store_and_then keeps_store_call keeps_store_print keeps_store_create_tasks
        keeps_store_import_plugins)

lemma keeps_store_idle_then_teardown: "keeps_store (idle_then_teardown env)"
  unfolding idle_then_teardown_def teardown_def
  by (intro keeps_store_try_finally keeps_store_and_then keeps_store_call keeps_store_cancel_tasks)

lemma store_after_run:
  "restart_store (snd (start_services env s))
     = restart_store (snd (bot_initialization env (announce s)))"
proof (cases "bot_initialization env (announce s)")
  case (Pair r s1)
  have k: "keeps_store (and_then (launch env) (\<lambda>_. idle_then_teardown env))"
    by (intro keeps_store_and_then keeps_store_launch keeps_store_idle_then_teardown)
  show ?thesis
  proof (cases r)
    case (Inl e)
    with Pair show ?thesis by (simp add: start_services_def)
  next
    case (Inr q)
    with Pair k show ?thesis
      by (cases q) (simp_all add: start_services_def keeps_store_def)
  qed
qed

lemma bot_initialization_fst:
  "fst (bot_initialization env s)
     = (case fst (telegram_bot env s) of
          Inr _ \<Rightarrow> Inr Ready
        | Inl e \<Rightarrow> if is_Exception e then Inr Failed else Inl e)"
  by (cases "telegram_bot env s") (auto simp: bot_initialization_def split: sum.splits)

lemma bot_initialization_trace:
  "trace (snd (bot_initialization env s))
     = trace (snd (telegram_bot env s))
       @ (case fst (telegram_bot env s) of
            Inr _ \<Rightarrow> []
          | Inl e \<Rightarrow> if is_Exception e then [Log_error (Bot_initialization_failed e)] else [])"
  by (cases "telegram_bot env s") (auto simp: bot_initialization_def emit_def split: sum.splits)

lemma bot_initialization_store:
  "restart_store (snd (bot_initialization env s)) = restart_store (snd (telegram_bot env s))"
  by (cases "telegram_bot env s") (auto simp: bot_initialization_def emit_def split: sum.splits)

lemma teardown_calls_not_sequencer: "ev \<in> set (teardown_calls env) \<Longrightarrow> \<not> sequencer_event ev"
  by (auto simp: teardown_calls_def split: if_splits)

lemma filter_nil: "(\<And>ev. ev \<in> set evs \<Longrightarrow> \<not> P ev) \<Longrightarrow> filter P evs = []"
  by (simp add: filter_empty_conv)

lemma run_filter:
  assumes P: "\<And>ev. P ev \<Longrightarrow> sequencer_event ev"
  shows "filter P (new_events s (snd (start_services env s)))
     = filter P (new_events (announce s) (snd (bot_initialization env (announce s))))"
proof -
  obtain seq where seq: "trace (snd (bot_initialization env (announce s)))
            = trace s @ Print Banner # Print Initializing_bot_services # seq"
    using bot_initialization_events by blast
  have b: "new_events (announce s) (snd (bot_initialization env (announce s))) = seq"
    using seq by (simp add: new_events_def announce_def emit_def)
  have nb: "\<not> P (Print Banner)" "\<not> P (Print Initializing_bot_services)" "\<not> P (Call Idle)"
     "\<not> P (Call Initialize_clients)"
    using P by fastforce+
  show ?thesis
  proof (cases "fst (bot_initialization env (announce s)) = Inr Ready")
    case False
    with start_services_not_Ready [OF False] seq b nb show ?thesis
      by (simp add: new_events_def)
  next
    case True
    obtain la where la: "list_all launch_event la"
      "trace (snd (start_services env s))
        = trace (snd (bot_initialization env (announce s))) @ Call Initialize_clients # la
      \<or> trace (snd (start_services env s))
        = trace (snd (bot_initialization env (announce s))) @ Call Initialize_clients # la
            @ Call Idle # teardown_calls env"
      using start_services_Ready [OF True] by blast
    have la0: "filter P la = []"
      using la(1) launch_event_other P by (intro filter_nil) (auto simp: list_all_iff)
    have td0: "filter P (teardown_calls env) = []"
      using teardown_calls_not_sequencer P by (intro filter_nil) auto
    from la(2) show ?thesis
      using seq b nb la0 td0 by (auto simp: new_events_def)
  qed
qed

lemma connect_event_not_notice: "list_all connect_event pre \<Longrightarrow> filter notice_call pre = []"
proof -
  have "\<not> notice_call ev" if "connect_event ev" for ev
    using that by (cases ev rule: connect_event.cases) auto
  then show "list_all connect_event pre \<Longrightarrow> filter notice_call pre = []"
    by (auto simp: list_all_iff filter_empty_conv)
qed

lemma notice_call_sequencer: "notice_call ev \<Longrightarrow> sequencer_event ev"
  by (cases ev rule: notice_call.cases) auto

lemma sequencer_with_notice:
  assumes "connects env" "identifies env" "set_commands_r env = Inr ()"
    and "restart_store s = Some m"
  shows "fst (bot_initialization env (announce s))
      = (case resolve_result env of
           Inr _ \<Rightarrow> Inr Ready
         | Inl e \<Rightarrow> if is_Exception e then Inr Failed else Inl e)"
    and "\<exists>pre. list_all connect_event pre \<and>
        new_events (announce s) (snd (bot_initialization env (announce s)))
          = pre @ Call Db_get_restart_message
              # Call (StreamBot_edit_message_text (chat_id m) (message_id m))
              # resolve_tail env m
              @ (case resolve_result env of
                   Inr _ \<Rightarrow> []
                 | Inl e \<Rightarrow> if is_Exception e then [Log_error (Bot_initialization_failed e)] else [])"
    and "restart_store (snd (bot_initialization env (announce s)))
      = (if edit_message_r env = Inr () then None else Some m)"
proof -
  obtain pre s1 where a: "list_all connect_event pre" "trace s1 = trace (announce s) @ pre"
      "restart_store s1 = restart_store (announce s)"
      "telegram_bot env (announce s) = resolve_restart_message env s1"
    using reaches_resolution [OF assms(1,2,3)] by blast
  have st: "restart_store s1 = Some m"
    using a(3) assms(4) by (simp add: announce_def emit_def)
  show "fst (bot_initialization env (announce s))
      = (case resolve_result env of
           Inr _ \<Rightarrow> Inr Ready
         | Inl e \<Rightarrow> if is_Exception e then Inr Failed else Inl e)"
    by (simp add: bot_initialization_fst a(4) resolve_Some(1) [OF st])
  have "new_events (announce s) (snd (bot_initialization env (announce s)))
          = pre @ Call Db_get_restart_message
              # Call (StreamBot_edit_message_text (chat_id m) (message_id m))
              # resolve_tail env m
              @ (case resolve_result env of
                   Inr _ \<Rightarrow> []
                 | Inl e \<Rightarrow> if is_Exception e then [Log_error (Bot_initialization_failed e)] else [])"
    by (simp add: bot_initialization_trace a(4) resolve_Some(1,2) [OF st] a(2) new_events_def)
  with a(1) show "\<exists>pre. list_all connect_event pre \<and>
        new_events (announce s) (snd (bot_initialization env (announce s)))
          = pre @ Call Db_get_restart_message
              # Call (StreamBot_edit_message_text (chat_id m) (message_id m))
              # resolve_tail env m
              @ (case resolve_result env of
                   Inr _ \<Rightarrow> []
                 | Inl e \<Rightarrow> if is_Exception e then [Log_error (Bot_initialization_failed e)] else [])"
    by blast
  show "restart_store (snd (bot_initialization env (announce s)))
      = (if edit_message_r env = Inr () then None else Some m)"
    by (simp add: bot_initialization_store a(4) resolve_Some(3) [OF st])
qed

lemma sequencer_without_notice:
  assumes "connects env" "identifies env" "set_commands_r env = Inr ()"
    and "restart_store s = None"
  shows "fst (bot_initialization env (announce s)) = Inr Ready"
    and "\<exists>pre. list_all connect_event pre \<and>
        new_events (announce s) (snd (bot_initialization env (announce s)))
          = pre @ [Call Db_get_restart_message]"
    and "restart_store (snd (bot_initialization env (announce s))) = None"
proof -
  obtain pre s1 where a: "list_all connect_event pre" "trace s1 = trace (announce s) @ pre"
      "restart_store s1 = restart_store (announce s)"
      "telegram_bot env (announce s) = resolve_restart_message env s1"
    using reaches_resolution [OF assms(1,2,3)] by blast
  have st: "restart_store s1 = None"
    using a(3) assms(4) by (simp add: announce_def emit_def)
  show "fst (bot_initialization env (announce s)) = Inr Ready"
    by (simp add: bot_initialization_fst a(4) resolve_None [OF st])
  have "new_events (announce s) (snd (bot_initialization env (announce s)))
          = pre @ [Call Db_get_restart_message]"
    by (simp add: bot_initialization_trace a(4) resolve_None [OF st] a(2) new_events_def emit_def)
  with a(1) show "\<exists>pre. list_all connect_event pre \<and>
        new_events (announce s) (snd (bot_initialization env (announce s)))
          = pre @ [Call Db_get_restart_message]"
    by blast
  show "restart_store (snd (bot_initialization env (announce s))) = None"
    using st by (simp add: bot_initialization_store a(4) resolve_None [OF st] emit_def)
qed

lemma import_plugins_returns:
  assumes "list_all raises_only_Exception fs"
  shows "\<exists>n s1 evs. import_plugins fs s = (Inr n, s1) \<and> trace s1 = trace s @ evs"
proof -
  let ?s0 = "emit (Call Glob) (emit (Print Importing_plugins) s)"
  obtain evs where e: "trace (snd (import_plugins fs s)) = trace s @ evs"
    using only_emitsD [OF only_emits_import_plugins] by blast
  have "\<exists>n. fst (import_plugins fs s) = Inr n"
    using load_plugins_result [OF assms, of 0 "[]" ?s0]
    by (cases "load_plugins fs 0 [] ?s0") (auto simp: import_plugins_def Let_def)
  then obtain n where "fst (import_plugins fs s) = Inr n" by blast
  then have "import_plugins fs s = (Inr n, snd (import_plugins fs s))"
    by (metis prod.collapse)
  with e show ?thesis by blast
qed

lemma launch_completes:
  assumes "launch_succeeds env"
  shows "\<exists>evl. fst (launch env s) = Inr () \<and> trace (snd (launch env s)) = trace s @ evl
       \<and> Call Site_start \<in> set evl \<and> (\<forall>t. Create_task t \<in> set evl)"
proof -
  from assms have ok: "initialize_clients_r env = Inr ()" "list_all raises_only_Exception (plugins env)"
      "web_server_r env = Inr ()" "app_runner_setup_r env = Inr ()" "site_start_r env = Inr ()"
    by (simp_all add: launch_succeeds_def)
  let ?s0 = "emit (Call Initialize_clients) s"
  obtain n s1 evs where ip: "import_plugins (plugins env) ?s0 = (Inr n, s1)"
      "trace s1 = trace ?s0 @ evs"
    using import_plugins_returns [OF ok(2)] by blast
  let ?tail = "[Create_task Request_executor_task, Create_task Keepalive_task,
      Create_task Token_cleanup_task, Call Web_server, Call App_runner_setup, Call Site_start,
      Print Bot_running, Print Startup_time]"
  have l: "launch env s = (Inr (), s1\<lparr>trace := trace s1 @ ?tail\<rparr>)"
    unfolding launch_def and_then_def
    apply (simp add: call_def ok(1,3,4,5) ip(1) create_tasks_def print_def)
    apply (simp add: emit_def)
    done
  have "\<forall>t. Create_task t \<in> set (Call Initialize_clients # evs @ ?tail)"
  proof
    fix t show "Create_task t \<in> set (Call Initialize_clients # evs @ ?tail)"
      by (cases t) simp_all
  qed
  moreover have "trace (snd (launch env s)) = trace s @ (Call Initialize_clients # evs @ ?tail)"
    using l ip(2) by (simp add: emit_def)
  moreover have "Call Site_start \<in> set (Call Initialize_clients # evs @ ?tail)" by simp
  moreover have "fst (launch env s) = Inr ()" using l by simp
  ultimately show ?thesis by blast
qed

lemma run_completes:
  assumes "fst (bot_initialization env (announce s)) = Inr Ready" "launch_succeeds env"
  shows "Call Site_start \<in> set (new_events s (snd (start_services env s)))
       \<and> (\<forall>t. Create_task t \<in> set (new_events s (snd (start_services env s))))
       \<and> Call Idle \<in> set (new_events s (snd (start_services env s)))"
proof -
  obtain s1 where b: "bot_initialization env (announce s) = (Inr Ready, s1)"
    using assms(1) by (cases "bot_initialization env (announce s)") auto
  obtain seq where seq: "trace s1 = trace s @ Print Banner # Print Initializing_bot_services # seq"
    using bot_initialization_events [of env s] b by auto
  obtain evl where l: "fst (launch env s1) = Inr ()" "trace (snd (launch env s1)) = trace s1 @ evl"
      "Call Site_start \<in> set evl" "\<forall>t. Create_task t \<in> set evl"
    using launch_completes [OF assms(2)] by blast
  obtain s2 where l2: "launch env s1 = (Inr (), s2)"
    using l(1) by (cases "launch env s1") auto
  have "trace (snd (start_services env s))
      = trace s @ Print Banner # Print Initializing_bot_services # seq @ evl
          @ Call Idle # teardown_calls env"
    using b l2 l(2) seq idle_then_teardown_trace [of env s2]
    by (simp add: start_services_def and_then_def)
  then show ?thesis using l(3,4) by (simp add: new_events_def)
qed

lemma run_enters_launch:
  assumes "fst (bot_initialization env (announce s)) = Inr Ready"
  shows "Call Initialize_clients \<in> set (new_events s (snd (start_services env s)))"
proof -
  obtain seq where seq: "trace (snd (bot_initialization env (announce s)))
            = trace s @ Print Banner # Print Initializing_bot_services # seq"
    using bot_initialization_events by blast
  from start_services_Ready [OF assms] seq show ?thesis
    by (auto simp: new_events_def)
qed

lemma and_then_extends:
  assumes "\<And>x. only_emits P (f x)"
  shows "\<exists>evs. trace (snd (and_then m f s)) = trace (snd (m s)) @ evs"
proof (cases "m s")
  case (Pair r s1)
  show ?thesis
  proof (cases r)
    case (Inl e)
    with Pair show ?thesis by (simp add: and_then_def)
  next
    case (Inr x)
    obtain evs where "trace (snd (f x s1)) = trace s1 @ evs"
      using only_emitsD [OF assms] by blast
    with Pair Inr show ?thesis by (simp add: and_then_def)
  qed
qed

lemma get_bot_info_first:
  "\<exists>evs. trace (snd (get_bot_info env s)) = trace s @ Call StreamBot_get_me # evs"
  by (cases "get_me_first env")
     (auto simp: get_bot_info_def try_except_def call_def emit_def and_then_def sleep_def
        split: exn.splits sum.splits)

lemma telegram_bot_after_start:
  assumes "start_bot env s = (Inr (), s1)"
  shows "\<exists>evs. trace (snd (bot_initialization env s)) = trace s1 @ Call StreamBot_get_me # evs"
proof -
  let ?k = "\<lambda>bot_info_username.
     and_then (set_username bot_info_username) (\<lambda>_.
     and_then (print (Bot_initialized bot_info_username)) (\<lambda>_.
     and_then (call Set_commands (set_commands_r env)) (\<lambda>_.
     resolve_restart_message env)))"
  have k: "only_emits sequencer_event (?k x)" for x
    by (intro only_emits_and_then only_emits_resolve only_emits_set_username only_emits_print
          only_emits_call) simp_all
  have tb: "telegram_bot env s = and_then (get_bot_info env) ?k s1"
    by (simp add: telegram_bot_def and_then_def [of "start_bot env"] assms)
  obtain e1 where e1: "trace (snd (get_bot_info env s1)) = trace s1 @ Call StreamBot_get_me # e1"
    using get_bot_info_first by blast
  obtain e2 where e2: "trace (snd (and_then (get_bot_info env) ?k s1))
      = trace (snd (get_bot_info env s1)) @ e2"
    using and_then_extends [of sequencer_event ?k, OF k] by blast
  show ?thesis
    by (simp add: bot_initialization_trace tb e2 e1)
qed

text \<open>
  The definitions that evaluate a run on a concrete environment.
\<close>

lemmas run_defs =
  start_services_def announce_def bot_initialization_def telegram_bot_def start_bot_def
  get_bot_info_def set_username_def resolve_restart_message_def db_get_restart_message_def
  db_delete_restart_message_def launch_def import_plugins_def create_tasks_def
  idle_then_teardown_def teardown_def cancel_tasks_def
  and_then_def try_except_def try_finally_def call_def sleep_def print_def pass_def emit_def
  new_events_def

section \<open>The claims\<close>

text \<open>
  Claim C1 says that a start-up in which connect and identity fetch succeed but
  \<open>set_commands\<close> raises still reaches \<open>Ready\<close>, loads the plugins, launches the tasks
  and starts the listener. It does not: \<open>await set_commands()\<close> stands inside the outer
  \<open>try\<close>, whose \<open>except Exception\<close> logs and returns. In the scenario of the spec
  (connect meets \<open>FloodWait 5\<close>, the retry succeeds, \<open>get_me\<close> succeeds, the registration
  raises) the sequencer is \<open>Failed\<close> and the run ends with the log line: no plugin pass, no
  task, no listener.
\<close>

theorem registration_failure_counterexample:
  "connects env_registration_fails \<and> identifies env_registration_fails
   \<and> set_commands_r env_registration_fails = Inl (OtherException ''registration failed'')
   \<and> fst (bot_initialization env_registration_fails (announce s0)) = Inr Failed
   \<and> new_events s0 (snd (start_services env_registration_fails s0))
       = [Print Banner, Print Initializing_bot_services,
          Call StreamBot_start, Sleep 5, Call StreamBot_start, Call StreamBot_get_me,
          Print (Bot_initialized ''ThunderBot''), Call Set_commands,
          Log_error (Bot_initialization_failed (OtherException ''registration failed''))]"
  by (simp add: env_registration_fails_def env_ok_def s0_def connects_def identifies_def run_defs)

text \<open>
  Claim C1, amended: when connect and identity fetch succeed and \<open>set_commands\<close> raises
  \<open>e\<close>, the sequencer does not reach \<open>Ready\<close>. If \<open>e\<close> is an \<open>Exception\<close> the sequencer is
  \<open>Failed\<close>: the failure is logged as the last event and \<open>start_services\<close> returns; any
  other exception leaves \<open>start_services\<close>. Either way the restart notice is not read, the
  plugin pass does not run, no background task is created and the listener is not started.
\<close>

theorem registration_failure_aborts:
  assumes "connects env" "identifies env" "set_commands_r env = Inl e"
  shows "fst (bot_initialization env (announce s)) = (if is_Exception e then Inr Failed else Inl e)
    \<and> fst (start_services env s) = (if is_Exception e then Inr () else Inl e)
    \<and> last (trace (snd (start_services env s)))
        = (if is_Exception e then Log_error (Bot_initialization_failed e) else Call Set_commands)
    \<and> filter notice_call (new_events s (snd (start_services env s))) = []
    \<and> Call Glob \<notin> set (new_events s (snd (start_services env s)))
    \<and> (\<forall>t. Create_task t \<notin> set (new_events s (snd (start_services env s))))
    \<and> Call Site_start \<notin> set (new_events s (snd (start_services env s)))"
proof -
  obtain pre s1 where a: "list_all connect_event pre" "trace s1 = trace (announce s) @ pre"
      "telegram_bot env (announce s)
         = and_then (call Set_commands (set_commands_r env)) (\<lambda>_. resolve_restart_message env) s1"
    using reaches_set_commands [OF assms(1,2)] by blast
  have tb: "telegram_bot env (announce s) = (Inl e, emit (Call Set_commands) s1)"
    using a(3) assms(3) by (simp add: and_then_def call_def)
  have r: "fst (bot_initialization env (announce s)) = (if is_Exception e then Inr Failed else Inl e)"
    by (simp add: bot_initialization_fst tb)
  then have nr: "fst (bot_initialization env (announce s)) \<noteq> Inr Ready" by simp
  note n = start_services_not_Ready [OF nr]
  have t: "trace (snd (bot_initialization env (announce s)))
      = trace (announce s) @ pre @ Call Set_commands
          # (if is_Exception e then [Log_error (Bot_initialization_failed e)] else [])"
    by (simp add: bot_initialization_trace tb a(2) emit_def)
  obtain seq where seq: "trace (snd (bot_initialization env (announce s)))
            = trace s @ Print Banner # Print Initializing_bot_services # seq"
      "list_all sequencer_event seq"
    using bot_initialization_events by blast
  have no: "\<not> launch_event ev" if "ev \<in> set seq" for ev
    using that seq(2) sequencer_event_other by (auto simp: list_all_iff)
  have l: "Call Glob \<notin> set seq" "\<And>t. Create_task t \<notin> set seq" "Call Site_start \<notin> set seq"
    using no by fastforce+
  have f: "filter notice_call (new_events s (snd (start_services env s))) = []"
    using t connect_event_not_notice [OF a(1)]
    by (subst run_filter [of notice_call, OF notice_call_sequencer]) (simp_all add: new_events_def)
  have la: "last (trace (snd (start_services env s)))
        = (if is_Exception e then Log_error (Bot_initialization_failed e) else Call Set_commands)"
    using n t by simp
  have res: "fst (start_services env s) = (if is_Exception e then Inr () else Inl e)"
    using n r by simp
  from r res la f l n seq(1) show ?thesis by (simp add: new_events_def)
qed

text \<open>
  Witness of the amended C1 in the scenario of the spec.
\<close>

theorem registration_failure_aborts_witness:
  "connects env_registration_fails \<and> identifies env_registration_fails
   \<and> set_commands_r env_registration_fails = Inl (OtherException ''registration failed'')
   \<and> fst (start_services env_registration_fails s0) = Inr ()
   \<and> last (trace (snd (start_services env_registration_fails s0)))
       = Log_error (Bot_initialization_failed (OtherException ''registration failed''))
   \<and> Call Glob \<notin> set (new_events s0 (snd (start_services env_registration_fails s0)))
   \<and> Call Site_start \<notin> set (new_events s0 (snd (start_services env_registration_fails s0)))"
proof -
  have h: "connects env_registration_fails" "identifies env_registration_fails"
    "set_commands_r env_registration_fails = Inl (OtherException ''registration failed'')"
    by (simp_all add: env_registration_fails_def env_ok_def connects_def identifies_def)
  show ?thesis
    using h registration_failure_aborts [OF h, of s0] by simp
qed



text \<open>
  Claim C3: when \<open>StreamBot.start()\<close> raises \<open>FloodWait w\<close> once and the retry succeeds,
  the sequencer sleeps exactly \<open>w\<close>, connects a second time and goes on to \<open>get_me\<close>; when
  the retry raises \<open>FloodWait\<close> again, the sequencer is \<open>Failed\<close> after exactly two connect
  calls, the failure is logged and \<open>start_services\<close> returns. \<open>get_me\<close> follows the same
  policy: one sleep of \<open>w\<close> and one retry, and a second \<open>FloodWait\<close> makes the sequencer
  \<open>Failed\<close> after exactly two \<open>get_me\<close> calls. (Each sleep is taken to run to its end.)
\<close>

theorem single_retry_on_flood_wait:
  "(start_first env = Inl (FloodWait w) \<and> start_sleep env = Inr () \<and> start_retry env = Inr () \<longrightarrow>
      start_bot env s
        = (Inr (), s\<lparr>trace := trace s @ [Call StreamBot_start, Sleep w, Call StreamBot_start]\<rparr>)
    \<and> take 4 (new_events s (snd (bot_initialization env s)))
        = [Call StreamBot_start, Sleep w, Call StreamBot_start, Call StreamBot_get_me])
 \<and> (start_first env = Inl (FloodWait w) \<and> start_sleep env = Inr ()
      \<and> start_retry env = Inl (FloodWait w2) \<longrightarrow>
      bot_initialization env s
        = (Inr Failed,
           s\<lparr>trace := trace s @ [Call StreamBot_start, Sleep w, Call StreamBot_start,
                                 Log_error (Bot_initialization_failed (FloodWait w2))]\<rparr>)
    \<and> fst (start_services env s) = Inr ()
    \<and> new_events s (snd (start_services env s))
        = [Print Banner, Print Initializing_bot_services,
           Call StreamBot_start, Sleep w, Call StreamBot_start,
           Log_error (Bot_initialization_failed (FloodWait w2))])
 \<and> (get_me_first env = Inl (FloodWait w) \<and> get_me_sleep env = Inr ()
      \<and> get_me_retry env = Inr u \<longrightarrow>
      get_bot_info env s
        = (Inr u, s\<lparr>trace := trace s @ [Call StreamBot_get_me, Sleep w, Call StreamBot_get_me]\<rparr>))
 \<and> (connects env \<and> get_me_first env = Inl (FloodWait w) \<and> get_me_sleep env = Inr ()
      \<and> get_me_retry env = Inl (FloodWait w2) \<longrightarrow>
      get_bot_info env s
        = (Inl (FloodWait w2),
           s\<lparr>trace := trace s @ [Call StreamBot_get_me, Sleep w, Call StreamBot_get_me]\<rparr>)
    \<and> fst (bot_initialization env s) = Inr Failed
    \<and> (let evs = new_events s (snd (bot_initialization env s))
       in drop (length evs - 4) evs
            = [Call StreamBot_get_me, Sleep w, Call StreamBot_get_me,
               Log_error (Bot_initialization_failed (FloodWait w2))]))"
proof -
  have 1: "start_bot env s
        = (Inr (), s\<lparr>trace := trace s @ [Call StreamBot_start, Sleep w, Call StreamBot_start]\<rparr>)
    \<and> take 4 (new_events s (snd (bot_initialization env s)))
        = [Call StreamBot_start, Sleep w, Call StreamBot_start, Call StreamBot_get_me]"
    if h: "start_first env = Inl (FloodWait w) \<and> start_sleep env = Inr () \<and> start_retry env = Inr ()"
  proof -
    have sb: "start_bot env s
        = (Inr (), s\<lparr>trace := trace s @ [Call StreamBot_start, Sleep w, Call StreamBot_start]\<rparr>)"
      using h by (simp add: start_bot_def try_except_def call_def emit_def and_then_def sleep_def)
    obtain evs where "trace (snd (bot_initialization env s))
        = trace (s\<lparr>trace := trace s @ [Call StreamBot_start, Sleep w, Call StreamBot_start]\<rparr>)
            @ Call StreamBot_get_me # evs"
      using telegram_bot_after_start [OF sb] by blast
    then have "take 4 (new_events s (snd (bot_initialization env s)))
        = [Call StreamBot_start, Sleep w, Call StreamBot_start, Call StreamBot_get_me]"
      by (simp add: new_events_def)
    with sb show ?thesis by simp
  qed
  have 2: "bot_initialization env s
        = (Inr Failed,
           s\<lparr>trace := trace s @ [Call StreamBot_start, Sleep w, Call StreamBot_start,
                                 Log_error (Bot_initialization_failed (FloodWait w2))]\<rparr>)
    \<and> fst (start_services env s) = Inr ()
    \<and> new_events s (snd (start_services env s))
        = [Print Banner, Print Initializing_bot_services,
           Call StreamBot_start, Sleep w, Call StreamBot_start,
           Log_error (Bot_initialization_failed (FloodWait w2))]"
    if h: "start_first env = Inl (FloodWait w) \<and> start_sleep env = Inr ()
      \<and> start_retry env = Inl (FloodWait w2)"
  proof -
    have sb: "start_bot env s0
        = (Inl (FloodWait w2),
           s0\<lparr>trace := trace s0 @ [Call StreamBot_start, Sleep w, Call StreamBot_start]\<rparr>)" for s0
      using h by (simp add: start_bot_def try_except_def call_def emit_def and_then_def sleep_def)
    have bi: "bot_initialization env s0
        = (Inr Failed,
           s0\<lparr>trace := trace s0 @ [Call StreamBot_start, Sleep w, Call StreamBot_start,
                                 Log_error (Bot_initialization_failed (FloodWait w2))]\<rparr>)" for s0
      by (simp add: bot_initialization_def telegram_bot_def and_then_def [of "start_bot env"] sb
            emit_def)
    show ?thesis
      by (simp add: bi start_services_def announce_def emit_def new_events_def)
  qed
  have 3: "get_bot_info env s
        = (Inr u, s\<lparr>trace := trace s @ [Call StreamBot_get_me, Sleep w, Call StreamBot_get_me]\<rparr>)"
    if h: "get_me_first env = Inl (FloodWait w) \<and> get_me_sleep env = Inr ()
      \<and> get_me_retry env = Inr u"
    using h by (simp add: get_bot_info_def try_except_def call_def emit_def and_then_def sleep_def)
  have 4: "get_bot_info env s
        = (Inl (FloodWait w2),
           s\<lparr>trace := trace s @ [Call StreamBot_get_me, Sleep w, Call StreamBot_get_me]\<rparr>)
    \<and> fst (bot_initialization env s) = Inr Failed
    \<and> (let evs = new_events s (snd (bot_initialization env s))
       in drop (length evs - 4) evs
            = [Call StreamBot_get_me, Sleep w, Call StreamBot_get_me,
               Log_error (Bot_initialization_failed (FloodWait w2))])"
    if h: "connects env \<and> get_me_first env = Inl (FloodWait w) \<and> get_me_sleep env = Inr ()
      \<and> get_me_retry env = Inl (FloodWait w2)"
  proof -
    have gb: "get_bot_info env s0
        = (Inl (FloodWait w2),
           s0\<lparr>trace := trace s0 @ [Call StreamBot_get_me, Sleep w, Call StreamBot_get_me]\<rparr>)" for s0
      using h by (simp add: get_bot_info_def try_except_def call_def emit_def and_then_def sleep_def)
    obtain pre where pre: "start_bot env s = (Inr (), s\<lparr>trace := trace s @ pre\<rparr>)"
      using start_bot_connects h by blast
    have tb: "telegram_bot env s
        = (Inl (FloodWait w2),
           s\<lparr>trace := trace s @ pre @ [Call StreamBot_get_me, Sleep w, Call StreamBot_get_me]\<rparr>)"
      by (simp add: telegram_bot_def and_then_def [of "start_bot env"]
            and_then_def [of "get_bot_info env"] pre gb)
    have ev: "new_events s (snd (bot_initialization env s))
        = pre @ [Call StreamBot_get_me, Sleep w, Call StreamBot_get_me,
               Log_error (Bot_initialization_failed (FloodWait w2))]"
      by (simp add: bot_initialization_trace tb new_events_def)
    have "fst (bot_initialization env s) = Inr Failed"
      by (simp add: bot_initialization_fst tb)
    moreover have "let evs = new_events s (snd (bot_initialization env s))
       in drop (length evs - 4) evs
            = [Call StreamBot_get_me, Sleep w, Call StreamBot_get_me,
               Log_error (Bot_initialization_failed (FloodWait w2))]"
      unfolding Let_def ev by simp
    ultimately show ?thesis using gb by simp
  qed
  from 1 2 3 4 show ?thesis by blast
qed

text \<open>
  Witness of C3: a retry that succeeds for both calls, and a second \<open>FloodWait\<close> for each.
\<close>

theorem single_retry_on_flood_wait_witness:
  "start_bot env_connect_retry s0
     = (Inr (), s0\<lparr>trace := [Call StreamBot_start, Sleep 5, Call StreamBot_start]\<rparr>)
   \<and> take 4 (new_events s0 (snd (bot_initialization env_connect_retry s0)))
       = [Call StreamBot_start, Sleep 5, Call StreamBot_start, Call StreamBot_get_me]
   \<and> get_bot_info env_connect_retry s0
       = (Inr ''ThunderBot'',
          s0\<lparr>trace := [Call StreamBot_get_me, Sleep 7, Call StreamBot_get_me]\<rparr>)
   \<and> bot_initialization env_connect_flood_twice s0
       = (Inr Failed,
          s0\<lparr>trace := [Call StreamBot_start, Sleep 5, Call StreamBot_start,
                        Log_error (Bot_initialization_failed (FloodWait 9))]\<rparr>)
   \<and> fst (bot_initialization env_get_me_flood_twice s0) = Inr Failed
   \<and> get_bot_info env_get_me_flood_twice s0
       = (Inl (FloodWait 11),
          s0\<lparr>trace := [Call StreamBot_get_me, Sleep 7, Call StreamBot_get_me]\<rparr>)"
  using single_retry_on_flood_wait [of env_connect_retry 5 s0 9 "''ThunderBot''"]
    single_retry_on_flood_wait [of env_connect_retry 7 s0 9 "''ThunderBot''"]
    single_retry_on_flood_wait [of env_connect_flood_twice 5 s0 9 "''ThunderBot''"]
    single_retry_on_flood_wait [of env_get_me_flood_twice 7 s0 11 "''ThunderBot''"]
  by (simp add: env_connect_retry_def env_connect_flood_twice_def env_get_me_flood_twice_def
        env_ok_def s0_def connects_def)




text \<open>
  Claim C5: in every run that reaches the idle wait, and for every interleaving of the events
  of the run with iterations of the background tasks, the teardown events are, in this
  order: the three cancellation requests, the client release, then the limiter shutdown
  and then the listener teardown (each of the last two when the steps before it returned).
\<close>

theorem teardown_order:
  assumes "Call Idle \<in> set (new_events s (snd (start_services env s)))"
    and "list_all is_Background bg"
    and "tr \<in> shuffles (new_events s (snd (start_services env s))) bg"
  shows "filter teardown_event tr =
     [Cancel Request_executor_task, Cancel Keepalive_task, Cancel Token_cleanup_task,
      Call Cleanup_clients] @
     (if cleanup_clients_r env = Inr () then
        Call Rate_limiter_shutdown #
        (if rate_limiter_shutdown_r env = Inr () then [Call App_runner_cleanup] else [])
      else [])"
proof -
  have bg: "filter teardown_event bg = []"
  proof -
    have "\<not> teardown_event ev" if "is_Background ev" for ev
      using that by (cases ev) auto
    with assms(2) show ?thesis by (auto simp: list_all_iff filter_empty_conv)
  qed
  have "filter teardown_event tr
      \<in> filter teardown_event ` shuffles (new_events s (snd (start_services env s))) bg"
    using assms(3) by (rule imageI)
  then have "filter teardown_event tr \<in> shuffles (teardown_calls env) []"
    by (simp add: filter_shuffles bg shutdown_projection [OF assms(1)])
  then show ?thesis by (simp add: teardown_calls_def)
qed

text \<open>
  Witness of C5: the run where every collaborator answers, with two background iterations.
\<close>

theorem teardown_order_witness:
  "Call Idle \<in> set (new_events s0 (snd (start_services env_ok s0)))
   \<and> list_all is_Background [Background Keepalive_task, Background Token_cleanup_task]
   \<and> Background Keepalive_task # new_events s0 (snd (start_services env_ok s0))
       @ [Background Token_cleanup_task]
      \<in> shuffles (new_events s0 (snd (start_services env_ok s0)))
          [Background Keepalive_task, Background Token_cleanup_task]
   \<and> filter teardown_event
       (Background Keepalive_task # new_events s0 (snd (start_services env_ok s0))
          @ [Background Token_cleanup_task])
      = [Cancel Request_executor_task, Cancel Keepalive_task, Cancel Token_cleanup_task,
         Call Cleanup_clients, Call Rate_limiter_shutdown, Call App_runner_cleanup]"
proof -
  have i: "Call Idle \<in> set (new_events s0 (snd (start_services env_ok s0)))"
    by (simp add: env_ok_def s0_def run_defs)
  have b: "list_all is_Background [Background Keepalive_task, Background Token_cleanup_task]"
    by simp
  have "xs @ ys \<in> shuffles xs ys" for xs ys :: "event list"
    by (induction xs) (simp_all add: Cons_in_shuffles_leftI)
  then have sh: "y # xs @ ys \<in> shuffles xs (y # ys)" for xs ys :: "event list" and y
    by (simp add: Cons_in_shuffles_rightI)
  have e: "cleanup_clients_r env_ok = Inr ()" "rate_limiter_shutdown_r env_ok = Inr ()"
    by (simp_all add: env_ok_def)
  show ?thesis
    using i b sh e teardown_order [OF i b sh] by simp
qed

text \<open>
  Claim C6: the clean-up loop returns exactly when an iteration is cancelled, and is still
  running otherwise (it never lets an exception escape); the errors it logs are exactly the
  exceptions of the iterations before the first cancelled one, in order, so the cancellation
  itself logs nothing; and the iterations it begins, each with a sleep of three hours, are
  all of them when none is cancelled, and those up to the first cancelled one otherwise.
\<close>

theorem token_cleanup_loop:
  "fst (schedule_token_cleanup its s) = (if list_ex cancelled its then Returned else Running)
   \<and> filter is_Log_error (new_events s (snd (schedule_token_cleanup its s)))
       = map (\<lambda>e. Log_error (Token_cleanup_error e))
           (List.map_filter iteration_raises (takeWhile (\<lambda>it. \<not> cancelled it) its))
   \<and> filter is_Sleep (new_events s (snd (schedule_token_cleanup its s)))
       = replicate (min (length its) (Suc (length (takeWhile (\<lambda>it. \<not> cancelled it) its))))
           (Sleep (3 * 3600))"
  by (simp add: loop_status loop_trace new_events_def loop_events_sleeps loop_events_log_count)

text \<open>
  Witness of C6: three iterations raise, the fourth succeeds and the loop is still running;
  the fifth is cancelled and the sixth never begins.
\<close>

theorem token_cleanup_loop_witness:
  "fst (schedule_token_cleanup iterations0 s0) = Returned
   \<and> filter is_Log_error (new_events s0 (snd (schedule_token_cleanup iterations0 s0)))
       = [Log_error (Token_cleanup_error (OtherException ''db down'')),
          Log_error (Token_cleanup_error (OtherException ''db down'')),
          Log_error (Token_cleanup_error (FloodWait 4))]
   \<and> filter is_Sleep (new_events s0 (snd (schedule_token_cleanup iterations0 s0)))
       = [Sleep 10800, Sleep 10800, Sleep 10800, Sleep 10800, Sleep 10800]
   \<and> fst (schedule_token_cleanup (take 4 iterations0) s0) = Running"
  using token_cleanup_loop [of iterations0 s0] token_cleanup_loop [of "take 4 iterations0" s0]
  by (simp add: iterations0_def cancelled_def iteration_raises_def map_filter_simps
        numeral_eq_Suc)

text \<open>
  Claim C7: when the start-up reaches the restart-notice step, a pending notice whose edit
  succeeds is deleted: the run reads the notice, edits the message and deletes the notice
  with that message id, the sequencer is \<open>Ready\<close>, and no notice is stored at the end of
  the run; with no pending notice the step only reads the store, makes no edit and no
  delete, and the sequencer is \<open>Ready\<close>.
\<close>

theorem restart_notice_resolved:
  assumes "connects env" "identifies env" "set_commands_r env = Inr ()"
  shows "(restart_store s = Some m \<and> edit_message_r env = Inr () \<longrightarrow>
            fst (bot_initialization env (announce s)) = Inr Ready
          \<and> filter notice_call (new_events s (snd (start_services env s)))
              = [Call Db_get_restart_message,
                 Call (StreamBot_edit_message_text (chat_id m) (message_id m)),
                 Call (Db_delete_restart_message (message_id m))]
          \<and> restart_store (snd (start_services env s)) = None)
       \<and> (restart_store s = None \<longrightarrow>
            fst (bot_initialization env (announce s)) = Inr Ready
          \<and> filter notice_call (new_events s (snd (start_services env s)))
              = [Call Db_get_restart_message]
          \<and> restart_store (snd (start_services env s)) = None)"
proof (intro conjI impI)
  assume h: "restart_store s = Some m \<and> edit_message_r env = Inr ()"
  note w = sequencer_with_notice [OF assms conjunct1 [OF h]]
  from h have rr: "resolve_result env = Inr ()" "resolve_tail env m = [Call (Db_delete_restart_message (message_id m))]"
    by (simp_all add: resolve_result_def resolve_tail_def)
  show "fst (bot_initialization env (announce s)) = Inr Ready"
    using w(1) rr by simp
  show "filter notice_call (new_events s (snd (start_services env s)))
              = [Call Db_get_restart_message,
                 Call (StreamBot_edit_message_text (chat_id m) (message_id m)),
                 Call (Db_delete_restart_message (message_id m))]"
    using w(2) rr connect_event_not_notice
    by (auto simp: run_filter [of notice_call, OF notice_call_sequencer])
  show "restart_store (snd (start_services env s)) = None"
    using w(3) h by (simp add: store_after_run)
next
  assume h: "restart_store s = None"
  note w = sequencer_without_notice [OF assms h]
  show "fst (bot_initialization env (announce s)) = Inr Ready" by (rule w(1))
  show "filter notice_call (new_events s (snd (start_services env s)))
              = [Call Db_get_restart_message]"
    using w(2) connect_event_not_notice
    by (auto simp: run_filter [of notice_call, OF notice_call_sequencer])
  show "restart_store (snd (start_services env s)) = None"
    using w(3) by (simp add: store_after_run)
qed

text \<open>
  Witness of C7: a start-up with a pending notice and one without.
\<close>

theorem restart_notice_resolved_witness:
  "connects env_ok \<and> identifies env_ok \<and> set_commands_r env_ok = Inr ()
   \<and> restart_store s_notice = Some notice0 \<and> edit_message_r env_ok = Inr ()
   \<and> filter notice_call (new_events s_notice (snd (start_services env_ok s_notice)))
       = [Call Db_get_restart_message, Call (StreamBot_edit_message_text 1001 42),
          Call (Db_delete_restart_message 42)]
   \<and> restart_store (snd (start_services env_ok s_notice)) = None
   \<and> restart_store s0 = None
   \<and> filter notice_call (new_events s0 (snd (start_services env_ok s0)))
       = [Call Db_get_restart_message]
   \<and> restart_store (snd (start_services env_ok s0)) = None"
proof -
  have h: "connects env_ok" "identifies env_ok" "set_commands_r env_ok = Inr ()"
    by (simp_all add: env_ok_def connects_def identifies_def)
  have g: "restart_store s_notice = Some notice0" "edit_message_r env_ok = Inr ()"
    "restart_store s0 = None" "chat_id notice0 = 1001" "message_id notice0 = 42"
    by (simp_all add: env_ok_def s_notice_def s0_def notice0_def)
  show ?thesis
    using h g restart_notice_resolved [OF h, of s_notice notice0]
      restart_notice_resolved [OF h, of s0 notice0]
    by simp
qed

text \<open>
  Claim C8: when the edit of the restart message raises \<open>FloodWait w\<close> (and the sleep runs
  to its end), the sequencer ends with the read, one edit and a sleep of exactly \<open>w\<close>;
  the whole run makes no second edit and no delete; the sequencer is \<open>Ready\<close>, the launch
  begins, and the listener is started when the launch steps return; the notice stays stored.
\<close>

theorem rate_limited_edit_single_attempt:
  assumes "connects env" "identifies env" "set_commands_r env = Inr ()"
    and "restart_store s = Some m"
    and "edit_message_r env = Inl (FloodWait w)" "edit_sleep env = Inr ()"
  shows "fst (bot_initialization env (announce s)) = Inr Ready
    \<and> (let evs = new_events s (snd (bot_initialization env (announce s)))
       in drop (length evs - 3) evs
            = [Call Db_get_restart_message,
               Call (StreamBot_edit_message_text (chat_id m) (message_id m)), Sleep w])
    \<and> filter notice_call (new_events s (snd (start_services env s)))
         = [Call Db_get_restart_message,
            Call (StreamBot_edit_message_text (chat_id m) (message_id m))]
    \<and> Call Initialize_clients \<in> set (new_events s (snd (start_services env s)))
    \<and> (launch_succeeds env \<longrightarrow> Call Site_start \<in> set (new_events s (snd (start_services env s))))
    \<and> restart_store (snd (start_services env s)) = Some m"
proof -
  note w = sequencer_with_notice [OF assms(1,2,3,4)]
  have rr: "resolve_result env = Inr ()" "resolve_tail env m = [Sleep w]"
    using assms(5,6) by (simp_all add: resolve_result_def resolve_tail_def)
  have ready: "fst (bot_initialization env (announce s)) = Inr Ready"
    using w(1) rr by simp
  obtain pre where pre: "list_all connect_event pre"
      "new_events (announce s) (snd (bot_initialization env (announce s)))
          = pre @ [Call Db_get_restart_message,
              Call (StreamBot_edit_message_text (chat_id m) (message_id m)), Sleep w]"
    using w(2) rr by auto
  obtain seq where seq: "trace (snd (bot_initialization env (announce s)))
            = trace s @ Print Banner # Print Initializing_bot_services # seq"
    using bot_initialization_events by blast
  have "seq = pre @ [Call Db_get_restart_message,
              Call (StreamBot_edit_message_text (chat_id m) (message_id m)), Sleep w]"
    using pre(2) seq by (simp add: new_events_def announce_def emit_def)
  then have ev: "new_events s (snd (bot_initialization env (announce s)))
      = (Print Banner # Print Initializing_bot_services # pre)
          @ [Call Db_get_restart_message,
              Call (StreamBot_edit_message_text (chat_id m) (message_id m)), Sleep w]"
    using seq by (simp add: new_events_def)
  have 2: "let evs = new_events s (snd (bot_initialization env (announce s)))
       in drop (length evs - 3) evs
            = [Call Db_get_restart_message,
               Call (StreamBot_edit_message_text (chat_id m) (message_id m)), Sleep w]"
    unfolding Let_def ev by simp
  have 3: "filter notice_call (new_events s (snd (start_services env s)))
         = [Call Db_get_restart_message,
            Call (StreamBot_edit_message_text (chat_id m) (message_id m))]"
    using pre connect_event_not_notice [OF pre(1)]
    by (simp add: run_filter [of notice_call, OF notice_call_sequencer])
  have 6: "restart_store (snd (start_services env s)) = Some m"
    using w(3) assms(5) by (simp add: store_after_run)
  from ready 2 3 6 run_enters_launch [OF ready] run_completes [OF ready] show ?thesis
    by blast
qed

text \<open>
  Witness of C8: an edit that meets \<open>FloodWait 3\<close>.
\<close>

theorem rate_limited_edit_single_attempt_witness:
  "connects env_edit_flood \<and> identifies env_edit_flood \<and> set_commands_r env_edit_flood = Inr ()
   \<and> restart_store s_notice = Some notice0
   \<and> edit_message_r env_edit_flood = Inl (FloodWait 3) \<and> edit_sleep env_edit_flood = Inr ()
   \<and> launch_succeeds env_edit_flood
   \<and> fst (bot_initialization env_edit_flood (announce s_notice)) = Inr Ready
   \<and> filter notice_call (new_events s_notice (snd (start_services env_edit_flood s_notice)))
       = [Call Db_get_restart_message, Call (StreamBot_edit_message_text 1001 42)]
   \<and> Call Initialize_clients \<in> set (new_events s_notice (snd (start_services env_edit_flood s_notice)))
   \<and> Call Site_start \<in> set (new_events s_notice (snd (start_services env_edit_flood s_notice)))
   \<and> restart_store (snd (start_services env_edit_flood s_notice)) = Some notice0"
proof -
  have h: "connects env_edit_flood" "identifies env_edit_flood"
    "set_commands_r env_edit_flood = Inr ()" "restart_store s_notice = Some notice0"
    "edit_message_r env_edit_flood = Inl (FloodWait 3)" "edit_sleep env_edit_flood = Inr ()"
    by (simp_all add: env_edit_flood_def env_ok_def connects_def identifies_def s_notice_def)
  have g: "launch_succeeds env_edit_flood" "chat_id notice0 = 1001" "message_id notice0 = 42"
    by (simp_all add: env_edit_flood_def env_ok_def notice0_def launch_succeeds_def)
  show ?thesis
    using h g rate_limited_edit_single_attempt [OF h] by simp
qed

text \<open>
  Claim C9: when the sequencer is \<open>Failed\<close>, the error is logged as the last event of the
  run and \<open>start_services\<close> returns: the plugin pass does not run, no background task is
  created and the listener is not started.
\<close>

theorem failed_startup_stops:
  assumes "fst (bot_initialization env (announce s)) = Inr Failed"
  shows "fst (start_services env s) = Inr ()
    \<and> (\<exists>e. is_Exception e \<and>
          last (trace (snd (start_services env s))) = Log_error (Bot_initialization_failed e))
    \<and> Call Glob \<notin> set (new_events s (snd (start_services env s)))
    \<and> (\<forall>t. Create_task t \<notin> set (new_events s (snd (start_services env s))))
    \<and> Call Site_start \<notin> set (new_events s (snd (start_services env s)))"
proof -
  have nr: "fst (bot_initialization env (announce s)) \<noteq> Inr Ready" using assms by simp
  obtain seq where seq: "trace (snd (bot_initialization env (announce s)))
            = trace s @ Print Banner # Print Initializing_bot_services # seq"
      "list_all sequencer_event seq"
    using bot_initialization_events by blast
  have no: "\<not> launch_event ev" if "ev \<in> set seq" for ev
    using that seq(2) sequencer_event_other by (auto simp: list_all_iff)
  have "Call Glob \<notin> set seq" "\<And>t. Create_task t \<notin> set seq" "Call Site_start \<notin> set seq"
    using no by fastforce+
  moreover have "\<exists>e. is_Exception e \<and>
      last (trace (snd (bot_initialization env (announce s)))) = Log_error (Bot_initialization_failed e)"
    using assms
    by (cases "telegram_bot env (announce s)")
       (auto simp: bot_initialization_def emit_def split: sum.splits if_splits)
  ultimately show ?thesis
    using start_services_not_Ready [OF nr] assms seq by (simp add: new_events_def)
qed

text \<open>
  Witness of C9: a connect call that fails.
\<close>

theorem failed_startup_stops_witness:
  "fst (bot_initialization env_connect_fails (announce s0)) = Inr Failed
   \<and> fst (start_services env_connect_fails s0) = Inr ()
   \<and> Call Glob \<notin> set (new_events s0 (snd (start_services env_connect_fails s0)))
   \<and> Create_task Keepalive_task \<notin> set (new_events s0 (snd (start_services env_connect_fails s0)))
   \<and> Call Site_start \<notin> set (new_events s0 (snd (start_services env_connect_fails s0)))"
proof -
  have h: "fst (bot_initialization env_connect_fails (announce s0)) = Inr Failed"
    by (simp add: env_connect_fails_def env_ok_def s0_def run_defs)
  show ?thesis
    using h failed_startup_stops [OF h] by simp
qed

text \<open>
  Claim C10: when the start-up reaches the restart-notice step with a pending notice and the
  edit raises \<open>MessageNotModified\<close>, the sequencer is \<open>Ready\<close> and the run makes the read
  and the edit but no delete; in general the run deletes the notice exactly when the edit
  returns without raising, so after any other outcome of the edit (unchanged, rate-limited)
  the notice is still stored at the end of the run.
\<close>

theorem unchanged_edit_keeps_notice:
  assumes "connects env" "identifies env" "set_commands_r env = Inr ()"
    and "restart_store s = Some m"
  shows "(edit_message_r env = Inl MessageNotModified \<longrightarrow>
            fst (bot_initialization env (announce s)) = Inr Ready
          \<and> filter notice_call (new_events s (snd (start_services env s)))
              = [Call Db_get_restart_message,
                 Call (StreamBot_edit_message_text (chat_id m) (message_id m))])
       \<and> (list_ex is_delete (new_events s (snd (start_services env s)))
            \<longleftrightarrow> edit_message_r env = Inr ())
       \<and> restart_store (snd (start_services env s))
            = (if edit_message_r env = Inr () then None else Some m)"
proof -
  note w = sequencer_with_notice [OF assms]
  obtain pre where pre: "list_all connect_event pre"
      "new_events (announce s) (snd (bot_initialization env (announce s)))
          = pre @ Call Db_get_restart_message
              # Call (StreamBot_edit_message_text (chat_id m) (message_id m))
              # resolve_tail env m
              @ (case resolve_result env of
                   Inr _ \<Rightarrow> []
                 | Inl e \<Rightarrow> if is_Exception e then [Log_error (Bot_initialization_failed e)] else [])"
    using w(2) by blast
  have f: "filter notice_call (new_events s (snd (start_services env s)))
      = Call Db_get_restart_message
          # Call (StreamBot_edit_message_text (chat_id m) (message_id m))
          # filter notice_call (resolve_tail env m)"
    using pre connect_event_not_notice [OF pre(1)]
    by (auto simp: run_filter [of notice_call, OF notice_call_sequencer] split: sum.splits)
  have d: "list_ex is_delete evs \<longleftrightarrow> list_ex is_delete (filter notice_call evs)" for evs
  proof -
    have "is_delete ev \<longleftrightarrow> is_delete ev \<and> notice_call ev" for ev
      by (cases ev rule: is_delete.cases) auto
    then show ?thesis by (auto simp: list_ex_iff)
  qed
  have t: "list_ex is_delete (resolve_tail env m) \<longleftrightarrow> edit_message_r env = Inr ()"
    by (auto simp: resolve_tail_def split: sum.splits exn.splits)
  have 1: "edit_message_r env = Inl MessageNotModified \<longrightarrow>
            fst (bot_initialization env (announce s)) = Inr Ready
          \<and> filter notice_call (new_events s (snd (start_services env s)))
              = [Call Db_get_restart_message,
                 Call (StreamBot_edit_message_text (chat_id m) (message_id m))]"
    using w(1) f by (auto simp: resolve_result_def resolve_tail_def)
  have 2: "list_ex is_delete (new_events s (snd (start_services env s)))
            \<longleftrightarrow> edit_message_r env = Inr ()"
  proof -
    have "list_ex is_delete (new_events s (snd (start_services env s)))
        \<longleftrightarrow> list_ex is_delete (filter notice_call (resolve_tail env m))"
      by (subst d) (simp add: f)
    also have "\<dots> \<longleftrightarrow> list_ex is_delete (resolve_tail env m)"
      by (rule d [symmetric])
    finally show ?thesis using t by simp
  qed
  have 3: "restart_store (snd (start_services env s))
            = (if edit_message_r env = Inr () then None else Some m)"
    using w(3) by (simp add: store_after_run)
  from 1 2 3 show ?thesis by blast
qed

text \<open>
  Witness of C10: an edit that raises \<open>MessageNotModified\<close>.
\<close>

theorem unchanged_edit_keeps_notice_witness:
  "connects env_edit_unchanged \<and> identifies env_edit_unchanged
   \<and> set_commands_r env_edit_unchanged = Inr ()
   \<and> restart_store s_notice = Some notice0
   \<and> edit_message_r env_edit_unchanged = Inl MessageNotModified
   \<and> fst (bot_initialization env_edit_unchanged (announce s_notice)) = Inr Ready
   \<and> filter notice_call (new_events s_notice (snd (start_services env_edit_unchanged s_notice)))
       = [Call Db_get_restart_message, Call (StreamBot_edit_message_text 1001 42)]
   \<and> \<not> list_ex is_delete (new_events s_notice (snd (start_services env_edit_unchanged s_notice)))
   \<and> restart_store (snd (start_services env_edit_unchanged s_notice)) = Some notice0"
proof -
  have h: "connects env_edit_unchanged" "identifies env_edit_unchanged"
    "set_commands_r env_edit_unchanged = Inr ()" "restart_store s_notice = Some notice0"
    by (simp_all add: env_edit_unchanged_def env_ok_def connects_def identifies_def s_notice_def)
  have g: "edit_message_r env_edit_unchanged = Inl MessageNotModified"
    "chat_id notice0 = 1001" "message_id notice0 = 42"
    by (simp_all add: env_edit_unchanged_def env_ok_def notice0_def)
  show ?thesis
    using h g unchanged_edit_keeps_notice [OF h] by simp
qed

end
